theory Spec2Isabelle
  imports Complex_Main "HOL-Library.Sublist"
begin

section \<open>Python strings\<close>

text \<open>
  The notebook \<^verbatim>\<open>notebooks/bios_cleaned.ipynb\<close> cleans one pandas DataFrame, cell after
  cell. A Python \<^verbatim>\<open>str\<close> is a sequence of Unicode code points, so a string is a list of
  naturals here; \<open>py\<close> embeds an ASCII literal. The bullet of the \<^verbatim>\<open>Used name\<close> column is
  U+2022 and does not fit a byte.
\<close>

type_synonym pystr = "nat list"

definition py :: "string \<Rightarrow> pystr" where
  "py s = map of_char s"

definition bullet :: pystr where
  "bullet = [8226]"

text \<open>\<^verbatim>\<open>s.split(sep)\<close> for a non-empty separator: every non-overlapping occurrence, scanned
  from the left, cuts the string. pandas' \<^verbatim>\<open>Series.str.split(pat)\<close> with the default
  \<^verbatim>\<open>n=-1\<close> does this for each of the three separators of the notebook (for the two-letter
  pattern \<^verbatim>\<open>in\<close> through \<^verbatim>\<open>re.split\<close>, which agrees with the literal split on a pattern
  without metacharacters).\<close>

fun split_from :: "pystr \<Rightarrow> pystr \<Rightarrow> pystr \<Rightarrow> pystr list" where
  "split_from sep acc [] = [rev acc]"
| "split_from sep acc (c # cs) =
     (if sep \<noteq> [] \<and> prefix sep (c # cs)
      then rev acc # split_from sep [] (drop (length sep) (c # cs))
      else split_from sep (c # acc) cs)"

definition str_split :: "pystr \<Rightarrow> pystr \<Rightarrow> pystr list" where
  "str_split sep s = split_from sep [] s"

text \<open>\<^verbatim>\<open>s.replace(old, new)\<close> for a non-empty \<open>old\<close>; \<^verbatim>\<open>re.sub\<close> of a pattern of plain
  letters is the same function.\<close>

fun str_replace :: "pystr \<Rightarrow> pystr \<Rightarrow> pystr \<Rightarrow> pystr" where
  "str_replace old new [] = []"
| "str_replace old new (c # cs) =
     (if old \<noteq> [] \<and> prefix old (c # cs)
      then new @ str_replace old new (drop (length old) (c # cs))
      else c # str_replace old new cs)"

text \<open>\<^verbatim>\<open>sub in s\<close>.\<close>

fun str_contains :: "pystr \<Rightarrow> pystr \<Rightarrow> bool" where
  "str_contains sub [] = (sub = [])"
| "str_contains sub (c # cs) = (prefix sub (c # cs) \<or> str_contains sub cs)"

text \<open>\<^verbatim>\<open>str.isspace\<close> of one code point, and \<^verbatim>\<open>s.strip()\<close>.\<close>

definition isspace :: "nat \<Rightarrow> bool" where
  "isspace c \<longleftrightarrow>
     (9 \<le> c \<and> c \<le> 13) \<or> (28 \<le> c \<and> c \<le> 32) \<or> c = 133 \<or> c = 160 \<or> c = 5760 \<or>
     (8192 \<le> c \<and> c \<le> 8202) \<or> c = 8232 \<or> c = 8233 \<or> c = 8239 \<or> c = 8287 \<or> c = 12288"

definition str_strip :: "pystr \<Rightarrow> pystr" where
  "str_strip s = rev (dropWhile isspace (rev (dropWhile isspace s)))"

section \<open>Cells, columns and frames\<close>

text \<open>
  A cell of a DataFrame is missing (\<open>NaN\<close>; \<^verbatim>\<open>None\<close> and \<^verbatim>\<open>NaT\<close> are missing values too and
  are not told apart), a string, a number or a date. Numbers are rationals: the float64
  rounding of pandas is not modelled. A frame is the ordered list of its named columns; the
  row labels are positions, since no cell of the notebook reorders or relabels rows.

  The model starts from the frame that \<^verbatim>\<open>pd.read_csv\<close> returned, with the text columns of
  \<^verbatim>\<open>object\<close> dtype (a string or a missing value in every cell) and \<^verbatim>\<open>athlete_id\<close> numeric,
  and follows pandas 2.2.
\<close>

datatype cell = NaN | Str pystr | Num rat | Date int int int

type_synonym series = "cell list"

type_synonym frame = "(string \<times> series) list"

datatype error = KeyError string | KeyError_int nat | ValueError string | TypeError

definition isna :: "cell \<Rightarrow> bool" where
  "isna c \<longleftrightarrow> c = NaN"

definition notna :: "cell \<Rightarrow> bool" where
  "notna c \<longleftrightarrow> c \<noteq> NaN"

text \<open>\<^verbatim>\<open>df[name]\<close>, \<^verbatim>\<open>df[name] = values\<close>, \<^verbatim>\<open>df.columns.get_loc(name)\<close>.\<close>

definition getcol :: "frame \<Rightarrow> string \<Rightarrow> error + series" where
  "getcol df name = (case map_of df name of None \<Rightarrow> Inl (KeyError name) | Some c \<Rightarrow> Inr c)"

fun setcol :: "frame \<Rightarrow> string \<Rightarrow> series \<Rightarrow> frame" where
  "setcol [] name c = [(name, c)]"
| "setcol ((m, d) # df) name c =
     (if m = name then (name, c) # df else (m, d) # setcol df name c)"

fun get_loc :: "frame \<Rightarrow> string \<Rightarrow> error + nat" where
  "get_loc [] name = Inl (KeyError name)"
| "get_loc ((m, d) # df) name =
     (if m = name then Inr 0
      else (case get_loc df name of Inl e \<Rightarrow> Inl e | Inr k \<Rightarrow> Inr (Suc k)))"

text \<open>\<^verbatim>\<open>df.insert(loc, column, value)\<close> refuses a column name that is already there.\<close>

definition insert_col :: "frame \<Rightarrow> nat \<Rightarrow> string \<Rightarrow> series \<Rightarrow> error + frame" where
  "insert_col df loc name c =
     (if name \<in> set (map fst df) then Inl (ValueError name)
      else Inr (take loc df @ [(name, c)] @ drop loc df))"

text \<open>\<^verbatim>\<open>df.drop(columns=names)\<close> and \<^verbatim>\<open>df[names]\<close> raise \<^verbatim>\<open>KeyError\<close> on a name that is
  not a column (the error of the model carries the first such name, that of pandas all
  of them).\<close>

definition drop_columns :: "frame \<Rightarrow> string list \<Rightarrow> error + frame" where
  "drop_columns df names =
     (case filter (\<lambda>n. n \<notin> set (map fst df)) names of
        [] \<Rightarrow> Inr (filter (\<lambda>p. fst p \<notin> set names) df)
      | n # _ \<Rightarrow> Inl (KeyError n))"

definition select_columns :: "frame \<Rightarrow> string list \<Rightarrow> error + frame" where
  "select_columns df names =
     (case filter (\<lambda>n. n \<notin> set (map fst df)) names of
        [] \<Rightarrow> Inr (map (\<lambda>n. (n, the (map_of df n))) names)
      | n # _ \<Rightarrow> Inl (KeyError n))"

text \<open>Boolean indexing of the rows: \<^verbatim>\<open>df[mask]\<close>.\<close>

definition filter_mask :: "bool list \<Rightarrow> 'a list \<Rightarrow> 'a list" where
  "filter_mask keep xs = map fst (filter snd (zip xs keep))"

definition filter_rows :: "bool list \<Rightarrow> frame \<Rightarrow> frame" where
  "filter_rows keep df = map (\<lambda>p. (fst p, filter_mask keep (snd p))) df"

text \<open>The positions that a mask keeps.\<close>

definition kept :: "bool list \<Rightarrow> nat list" where
  "kept keep = filter (nth keep) [0..<length keep]"

definition nrows :: "frame \<Rightarrow> nat" where
  "nrows df = (case df of [] \<Rightarrow> 0 | p # _ \<Rightarrow> length (snd p))"

definition row_of :: "frame \<Rightarrow> nat \<Rightarrow> cell list" where
  "row_of df i = map (\<lambda>p. snd p ! i) df"

definition rows :: "frame \<Rightarrow> cell list list" where
  "rows df = map (row_of df) [0..<nrows df]"

definition rectangular :: "frame \<Rightarrow> bool" where
  "rectangular df \<longleftrightarrow> list_all (\<lambda>p. length (snd p) = nrows df) df"

text \<open>The \<^verbatim>\<open>.str\<close> methods work on the strings of a column and give a missing value
  everywhere else.\<close>

definition str_map :: "(pystr \<Rightarrow> pystr) \<Rightarrow> series \<Rightarrow> series" where
  "str_map f col = map (\<lambda>c. case c of Str s \<Rightarrow> Str (f s) | _ \<Rightarrow> NaN) col"

text \<open>\<^verbatim>\<open>Series.str.split(sep, expand=True)\<close>: a frame with the integer column labels
  \<open>0, ..., w - 1\<close>, where \<open>w\<close> is the largest number of parts of any row (a missing row
  counts one); shorter rows are padded with missing values. It is kept as the list of its
  columns.\<close>

definition split_parts :: "pystr \<Rightarrow> cell \<Rightarrow> pystr list option" where
  "split_parts sep c = (case c of Str s \<Rightarrow> Some (str_split sep s) | _ \<Rightarrow> None)"

definition parts_len :: "pystr list option \<Rightarrow> nat" where
  "parts_len p = (case p of None \<Rightarrow> 1 | Some ps \<Rightarrow> length ps)"

definition part_at :: "nat \<Rightarrow> pystr list option \<Rightarrow> cell" where
  "part_at k p = (case p of None \<Rightarrow> NaN | Some ps \<Rightarrow> if k < length ps then Str (ps ! k) else NaN)"

definition str_split_expand :: "pystr \<Rightarrow> series \<Rightarrow> series list" where
  "str_split_expand sep col =
     (let parts = map (split_parts sep) col;
          w = foldr max (map parts_len parts) 0
      in map (\<lambda>k. map (part_at k) parts) [0..<w])"

text \<open>\<^verbatim>\<open>new_data[k]\<close> on such a frame: \<^verbatim>\<open>KeyError\<close> when there is no column \<open>k\<close>.\<close>

definition icol :: "series list \<Rightarrow> nat \<Rightarrow> error + series" where
  "icol nd k = (if k < length nd then Inr (nd ! k) else Inl (KeyError_int k))"

text \<open>A column none of whose strings holds the space character.\<close>

definition spaceless :: "series \<Rightarrow> bool" where
  "spaceless col \<longleftrightarrow> (\<forall>s. Str s \<in> set col \<longrightarrow> 32 \<notin> set s)"

section \<open>Library conversions\<close>

text \<open>
  \<^verbatim>\<open>pd.to_datetime(col, format="%d-%m-%Y", errors="coerce")\<close>. pandas matches the whole
  string against its pattern for the format: the day is
  \<^verbatim>\<open>3[0-1]|[1-2]\d|0[1-9]|[1-9]| [1-9]\<close>, the month \<^verbatim>\<open>1[0-2]|0[1-9]|[1-9]\<close>, the year
  \<^verbatim>\<open>\d\d\d\d\<close>, with a hyphen between them. No part can hold a hyphen, so the string
  matches exactly when cutting it at its hyphens gives three such parts. A string that
  does not match, a day the month does not have, and a date outside the range of a
  nanosecond timestamp give the missing value. Digits are the ASCII digits.
\<close>

definition isdigit :: "nat \<Rightarrow> bool" where
  "isdigit c \<longleftrightarrow> 48 \<le> c \<and> c \<le> 57"

definition digits_val :: "pystr \<Rightarrow> int" where
  "digits_val s = foldl (\<lambda>a c. 10 * a + (int c - 48)) 0 s"

fun day_re :: "pystr \<Rightarrow> bool" where
  "day_re [a, b] =
     ((a = 51 \<and> (b = 48 \<or> b = 49)) \<or> ((a = 49 \<or> a = 50) \<and> isdigit b) \<or>
      (a = 48 \<and> 49 \<le> b \<and> b \<le> 57) \<or> (a = 32 \<and> 49 \<le> b \<and> b \<le> 57))"
| "day_re [a] = (49 \<le> a \<and> a \<le> 57)"
| "day_re s = False"

fun month_re :: "pystr \<Rightarrow> bool" where
  "month_re [a, b] =
     ((a = 49 \<and> 48 \<le> b \<and> b \<le> 50) \<or> (a = 48 \<and> 49 \<le> b \<and> b \<le> 57))"
| "month_re [a] = (49 \<le> a \<and> a \<le> 57)"
| "month_re s = False"

definition year_re :: "pystr \<Rightarrow> bool" where
  "year_re s \<longleftrightarrow> length s = 4 \<and> list_all isdigit s"

definition leap_year :: "int \<Rightarrow> bool" where
  "leap_year y \<longleftrightarrow> (y mod 4 = 0 \<and> y mod 100 \<noteq> 0) \<or> y mod 400 = 0"

definition days_in_month :: "int \<Rightarrow> int \<Rightarrow> int" where
  "days_in_month y m =
     (if m = 2 then (if leap_year y then 29 else 28)
      else if m = 4 \<or> m = 6 \<or> m = 9 \<or> m = 11 then 30 else 31)"

definition in_timestamp_range :: "int \<Rightarrow> int \<Rightarrow> int \<Rightarrow> bool" where
  "in_timestamp_range y m d \<longleftrightarrow>
     (1677 < y \<or> (y = 1677 \<and> (9 < m \<or> (m = 9 \<and> 22 \<le> d)))) \<and>
     (y < 2262 \<or> (y = 2262 \<and> (m < 4 \<or> (m = 4 \<and> d \<le> 11))))"

definition strptime_dmy :: "pystr \<Rightarrow> cell" where
  "strptime_dmy s =
     (case str_split (py ''-'') s of
        [ds, ms, ys] \<Rightarrow>
          (if day_re ds \<and> month_re ms \<and> year_re ys
           then (let d = digits_val (filter isdigit ds); m = digits_val ms; y = digits_val ys
                 in if d \<le> days_in_month y m \<and> in_timestamp_range y m d
                    then Date y m d else NaN)
           else NaN)
      | _ \<Rightarrow> NaN)"

definition to_datetime :: "series \<Rightarrow> series" where
  "to_datetime col = map (\<lambda>c. case c of Str s \<Rightarrow> strptime_dmy s | Date y m d \<Rightarrow> Date y m d | _ \<Rightarrow> NaN) col"

text \<open>
  \<^verbatim>\<open>pd.to_numeric(col, errors="coerce")\<close> on an object column. The text of a number is
  optional ASCII white space, an optional sign, digits with an optional decimal point,
  an optional exponent, optional white space; the value is the exact decimal value.
  Any other text gives the missing value. Outside the model are the spellings of
  infinity, which float64 has and the rationals have not, and the decimals beyond the
  range of float64, for which pandas gives the missing value.
\<close>

definition isspace_ascii :: "nat \<Rightarrow> bool" where
  "isspace_ascii c \<longleftrightarrow> c = 32 \<or> (9 \<le> c \<and> c \<le> 13)"

definition unsigned_val :: "pystr \<Rightarrow> rat option" where
  "unsigned_val s =
     (let ip = takeWhile isdigit s; r = dropWhile isdigit s;
          fp = (if r \<noteq> [] \<and> hd r = 46 then takeWhile isdigit (tl r) else []);
          r' = (if r \<noteq> [] \<and> hd r = 46 then dropWhile isdigit (tl r) else r);
          mant = of_int (digits_val (ip @ fp)) / (10 ^ length fp)
      in if ip @ fp = [] then None
         else if r' = [] then Some mant
         else if hd r' = 101 \<or> hd r' = 69 then
           (let e = tl r';
                neg = (e \<noteq> [] \<and> hd e = 45);
                ed = (if e \<noteq> [] \<and> (hd e = 45 \<or> hd e = 43) then tl e else e)
            in if ed \<noteq> [] \<and> list_all isdigit ed
               then Some (if neg then mant / 10 ^ nat (digits_val ed)
                          else mant * 10 ^ nat (digits_val ed))
               else None)
         else None)"

definition parse_number :: "pystr \<Rightarrow> rat option" where
  "parse_number s =
     (let t = rev (dropWhile isspace_ascii (rev (dropWhile isspace_ascii s)))
      in if t \<noteq> [] \<and> hd t = 45 then map_option uminus (unsigned_val (tl t))
         else if t \<noteq> [] \<and> hd t = 43 then unsigned_val (tl t)
         else unsigned_val t)"

definition numeric_cell :: "pystr \<Rightarrow> cell" where
  "numeric_cell s = (case parse_number s of Some q \<Rightarrow> Num q | None \<Rightarrow> NaN)"

definition to_numeric :: "series \<Rightarrow> series" where
  "to_numeric col =
     map (\<lambda>c. case c of Str s \<Rightarrow> numeric_cell s | Num q \<Rightarrow> Num q | _ \<Rightarrow> NaN) col"

text \<open>
  \<^verbatim>\<open>SimpleImputer(strategy="most_frequent").fit_transform\<close> on one column: the statistic
  is the most frequent of the values that are not missing, and the smallest of them when
  several are equally frequent; every missing cell gets it. For a column without any
  value the imputer has no statistic and returns no column at all; what the assignment
  of that result does to the frame is not modelled, and the run counts as failed.
\<close>

definition observed :: "series \<Rightarrow> rat list" where
  "observed col = concat (map (\<lambda>c. case c of Num q \<Rightarrow> [q] | _ \<Rightarrow> []) col)"

definition most_frequent :: "rat list \<Rightarrow> rat option" where
  "most_frequent xs =
     (if xs = [] then None
      else (let top = Max (set (map (count_list xs) xs))
            in Some (Min (set (filter (\<lambda>x. count_list xs x = top) xs)))))"

definition fit_transform :: "series \<Rightarrow> error + series" where
  "fit_transform col =
     (case most_frequent (observed col) of
        None \<Rightarrow> Inl (ValueError ''no observed value'')
      | Some v \<Rightarrow> Inr (map (\<lambda>c. if isna c then Num v else c) col))"

text \<open>\<^verbatim>\<open>Series.round(1)\<close>: to the nearest tenth, a tie to the even one.\<close>

definition round_half_even :: "rat \<Rightarrow> int" where
  "round_half_even q =
     (let n = \<lfloor>q\<rfloor>; f = q - of_int n
      in if f < 1 / 2 then n else if 1 / 2 < f then n + 1 else if even n then n else n + 1)"

definition round1 :: "series \<Rightarrow> series" where
  "round1 col = map (\<lambda>c. case c of Num q \<Rightarrow> Num (of_int (round_half_even (q * 10)) / 10) | c' \<Rightarrow> c') col"

text \<open>\<^verbatim>\<open>Series.fillna(v)\<close>, and \<^verbatim>\<open>Series.replace(old, new, regex=False)\<close>, which replaces
  the cells equal to \<open>old\<close> as a whole.\<close>

definition fillna :: "cell \<Rightarrow> series \<Rightarrow> series" where
  "fillna v col = map (\<lambda>c. if isna c then v else c) col"

definition replace_value :: "cell \<Rightarrow> cell \<Rightarrow> series \<Rightarrow> series" where
  "replace_value old new col = map (\<lambda>c. if c = old then new else c) col"

text \<open>\<^verbatim>\<open>Series.replace(dict, regex=True)\<close>: each pattern of the dictionary is substituted,
  in turn, in the strings of the column; other cells stay.\<close>

definition replace_regex :: "(pystr \<times> pystr) list \<Rightarrow> series \<Rightarrow> series" where
  "replace_regex d col =
     map (\<lambda>c. case c of Str s \<Rightarrow> Str (fold (\<lambda>p. str_replace (fst p) (snd p)) d s) | c' \<Rightarrow> c') col"

section \<open>The notebook\<close>

text \<open>Statements run in order; the first that raises ends the run.\<close>

fun apply_each :: "('s \<Rightarrow> error + 's) list \<Rightarrow> 's \<Rightarrow> error + 's" where
  "apply_each [] s = Inr s"
| "apply_each (f # fs) s = (case f s of Inl e \<Rightarrow> Inl e | Inr s' \<Rightarrow> apply_each fs s')"

text \<open>\<^verbatim>\<open>df[name] = f(df[name])\<close>.\<close>

definition update_col :: "string \<Rightarrow> (series \<Rightarrow> series) \<Rightarrow> frame \<Rightarrow> error + frame" where
  "update_col name f df =
     (case getcol df name of Inl e \<Rightarrow> Inl e | Inr c \<Rightarrow> Inr (setcol df name (f c)))"

subsection \<open>Duplicates and unwanted columns\<close>

text \<open>\<^verbatim>\<open>df = df.drop_duplicates()\<close>: \<^verbatim>\<open>df.duplicated()\<close> marks a row that equals an earlier
  row in every column, and the marked rows go.\<close>

definition duplicated :: "frame \<Rightarrow> bool list" where
  "duplicated df =
     map (\<lambda>i. list_ex (\<lambda>j. row_of df j = row_of df i) [0..<i]) [0..<nrows df]"

definition drop_duplicates :: "frame \<Rightarrow> frame" where
  "drop_duplicates df = filter_rows (map Not (duplicated df)) df"

definition unwanted_columns :: "string list" where
  "unwanted_columns =
     [''Nick/petnames'', ''Title(s)'', ''Other names'', ''Nationality'', ''Original name'',
      ''Name order'']"

definition arranged_columns :: "string list" where
  "arranged_columns =
     [''athlete_id'', ''Full name'', ''Used name'', ''Sex'', ''Born'', ''Died'', ''NOC'',
      ''Measurements'', ''Roles'', ''Affiliations'']"

definition prune_stage :: "frame \<Rightarrow> error + frame" where
  "prune_stage df =
     (case drop_columns df unwanted_columns of
        Inl e \<Rightarrow> Inl e
      | Inr df1 \<Rightarrow> select_columns df1 arranged_columns)"

subsection \<open>Used name\<close>

text \<open>\<^verbatim>\<open>df.insert(loc=df.columns.get_loc("Used name")+1, column="name",
  value=df["Used name"].str.replace("\<bullet>", " "))\<close>, then the drop of \<^verbatim>\<open>Full name\<close> and
  \<^verbatim>\<open>Used name\<close>.\<close>

definition name_stage :: "frame \<Rightarrow> error + frame" where
  "name_stage df =
     (case get_loc df ''Used name'' of
        Inl e \<Rightarrow> Inl e
      | Inr loc \<Rightarrow>
     (case getcol df ''Used name'' of
        Inl e \<Rightarrow> Inl e
      | Inr used \<Rightarrow>
     (case insert_col df (loc + 1) ''name'' (str_map (str_replace bullet (py '' '')) used) of
        Inl e \<Rightarrow> Inl e
      | Inr df1 \<Rightarrow> drop_columns df1 [''Full name'', ''Used name''])))"

subsection \<open>Born\<close>

text \<open>The loop that the notebook runs after each of its three splits:
  \<^verbatim>\<open>for i in range(len(new_cols)):
      df.insert(loc=df.columns.get_loc(anchor) + 1 + i, column=new_cols[i], value=new_data[i])\<close>\<close>

fun insert_loop :: "string \<Rightarrow> string list \<Rightarrow> series list \<Rightarrow> nat list \<Rightarrow> frame \<Rightarrow> error + frame" where
  "insert_loop anchor new_cols new_data [] df = Inr df"
| "insert_loop anchor new_cols new_data (i # is) df =
     (case get_loc df anchor of
        Inl e \<Rightarrow> Inl e
      | Inr loc \<Rightarrow>
     (case icol new_data i of
        Inl e \<Rightarrow> Inl e
      | Inr v \<Rightarrow>
     (case insert_col df (loc + 1 + i) (new_cols ! i) v of
        Inl e \<Rightarrow> Inl e
      | Inr df1 \<Rightarrow> insert_loop anchor new_cols new_data is df1)))"

definition months :: "(pystr \<times> pystr) list" where
  "months =
     [(py ''January'', py ''-01-''), (py ''February'', py ''-02-''), (py ''March'', py ''-03-''),
      (py ''April'', py ''-04-''), (py ''May'', py ''-05-''), (py ''June'', py ''-06-''),
      (py ''July'', py ''-07-''), (py ''August'', py ''-08-''), (py ''September'', py ''-09-''),
      (py ''October'', py ''-10-''), (py ''November'', py ''-11-''), (py ''December'', py ''-12-'')]"

definition new_cols1 :: "string list" where
  "new_cols1 = [''birth_date'', ''birth_location'']"

text \<open>\<^verbatim>\<open>x.str.strip().replace(" ", "", regex=False)\<close>: the second call is the replace of
  whole values of a Series, not of the characters in them.\<close>

definition strip_column :: "series \<Rightarrow> series" where
  "strip_column col = replace_value (Str (py '' '')) (Str []) (str_map str_strip col)"

definition remove_spaces :: "series \<Rightarrow> series" where
  "remove_spaces col = str_map (str_replace (py '' '') []) col"

text \<open>
  \<^verbatim>\<open>new_data1 = df["Born"].str.split("in", expand=True)\<close>; the month names of column 0
  become their numbers; columns 0 and 1 are stripped (\<^verbatim>\<open>new_data1[1]\<close> raises when the
  split gave one column); both are inserted after \<^verbatim>\<open>Born\<close>; the spaces go from
  \<^verbatim>\<open>birth_date\<close>, which is then parsed, and from \<^verbatim>\<open>birth_location\<close>.
\<close>

definition born_stage :: "frame \<Rightarrow> error + frame" where
  "born_stage df =
     (case getcol df ''Born'' of
        Inl e \<Rightarrow> Inl e
      | Inr born \<Rightarrow>
     (let new_data1 = str_split_expand (py ''in'') born in
     (case icol new_data1 0 of
        Inl e \<Rightarrow> Inl e
      | Inr c0 \<Rightarrow>
     (let new_data1a = new_data1[0 := strip_column (replace_regex months c0)] in
     (case icol new_data1a 1 of
        Inl e \<Rightarrow> Inl e
      | Inr c1 \<Rightarrow>
     (let new_data1b = new_data1a[1 := strip_column c1] in
     (case insert_loop ''Born'' new_cols1 new_data1b [0..<length new_cols1] df of
        Inl e \<Rightarrow> Inl e
      | Inr df1 \<Rightarrow>
          apply_each
            [update_col ''birth_date'' remove_spaces,
             update_col ''birth_date'' to_datetime,
             update_col ''birth_location'' remove_spaces] df1)))))))"

subsection \<open>City, Region, Country\<close>

definition new_cols2 :: "string list" where
  "new_cols2 = [''City'', ''Region_country'']"

definition new_cols3 :: "string list" where
  "new_cols3 = [''Region'', ''Country'']"

definition city_stage :: "frame \<Rightarrow> error + frame" where
  "city_stage df =
     (case getcol df ''birth_location'' of
        Inl e \<Rightarrow> Inl e
      | Inr loc \<Rightarrow>
          insert_loop ''birth_location'' new_cols2 (str_split_expand (py '','') loc)
            [0..<length new_cols2] df)"

definition region_stage :: "frame \<Rightarrow> error + frame" where
  "region_stage df =
     (case getcol df ''Region_country'' of
        Inl e \<Rightarrow> Inl e
      | Inr rc \<Rightarrow>
     (case insert_loop ''Region_country'' new_cols3 (str_split_expand (py ''('') rc)
             [0..<length new_cols3] df of
        Inl e \<Rightarrow> Inl e
      | Inr df1 \<Rightarrow>
          apply_each
            [update_col ''Country'' (str_map (str_replace (py '')'') [])),
             (\<lambda>d. drop_columns d [''Born'', ''birth_location'', ''Region_country'', ''Died''])]
            df1))"

subsection \<open>NOC\<close>

text \<open>\<^verbatim>\<open>df.dropna(subset=["NOC"], inplace=True)\<close>.\<close>

definition noc_stage :: "frame \<Rightarrow> error + frame" where
  "noc_stage df =
     (case getcol df ''NOC'' of
        Inl e \<Rightarrow> Inl e
      | Inr noc \<Rightarrow> Inr (filter_rows (map notna noc) df))"

subsection \<open>Measurements\<close>

text \<open>One row of the frame \<^verbatim>\<open>new_data4\<close>, as \<^verbatim>\<open>iterrows\<close> hands it over, and \<^verbatim>\<open>row[k]\<close>,
  which raises \<^verbatim>\<open>KeyError\<close> when the frame has no column \<open>k\<close>.\<close>

definition row_at :: "series list \<Rightarrow> nat \<Rightarrow> cell list" where
  "row_at nd i = map (\<lambda>c. c ! i) nd"

definition row_get :: "cell list \<Rightarrow> nat \<Rightarrow> error + cell" where
  "row_get row k = (if k < length row then Inr (row ! k) else Inl (KeyError_int k))"

text \<open>\<^verbatim>\<open>df.at[i, "height_cm"] = row[0].replace(" cm", "")\<close> and its sibling for the weight;
  the state of the loop is the pair of the two new columns.\<close>

definition store_height :: "nat \<Rightarrow> cell \<Rightarrow> series \<times> series \<Rightarrow> error + series \<times> series" where
  "store_height i c hw =
     (case c of
        Str s \<Rightarrow> Inr ((fst hw)[i := Str (str_replace (py '' cm'') [] s)], snd hw)
      | _ \<Rightarrow> Inl TypeError)"

definition store_weight :: "nat \<Rightarrow> cell \<Rightarrow> series \<times> series \<Rightarrow> error + series \<times> series" where
  "store_weight i c hw =
     (case c of
        Str s \<Rightarrow> Inr (fst hw, (snd hw)[i := Str (str_replace (py '' kg'') [] s)])
      | _ \<Rightarrow> Inl TypeError)"

definition cell_contains :: "pystr \<Rightarrow> cell \<Rightarrow> error + bool" where
  "cell_contains sub c = (case c of Str s \<Rightarrow> Inr (str_contains sub s) | _ \<Rightarrow> Inl TypeError)"

definition loop_body :: "cell list \<Rightarrow> nat \<Rightarrow> series \<times> series \<Rightarrow> error + series \<times> series" where
  "loop_body row i hw =
     (case row_get row 1 of
        Inl e \<Rightarrow> Inl e
      | Inr r1 \<Rightarrow>
          if isna r1 then
            (case row_get row 0 of
               Inl e \<Rightarrow> Inl e
             | Inr r0 \<Rightarrow>
                 if notna r0 then
                   (case cell_contains (py ''cm'') r0 of
                      Inl e \<Rightarrow> Inl e
                    | Inr has_cm \<Rightarrow>
                        if has_cm then store_height i r0 hw
                        else (case cell_contains (py ''kg'') r0 of
                                Inl e \<Rightarrow> Inl e
                              | Inr has_kg \<Rightarrow> if has_kg then store_weight i r0 hw else Inr hw))
                 else Inr hw)
          else
            (case row_get row 0 of
               Inl e \<Rightarrow> Inl e
             | Inr r0 \<Rightarrow>
            (case (if notna r0 then store_height i r0 hw else Inr hw) of
               Inl e \<Rightarrow> Inl e
             | Inr hw1 \<Rightarrow> if notna r1 then store_weight i r1 hw1 else Inr hw1)))"

text \<open>What one pass of the loop body leaves in the two new columns, at its row, when the
  stripped parts of the row are \<open>r0\<close> and \<open>r1\<close> and both cells were missing before.\<close>

definition stored :: "cell \<Rightarrow> cell \<Rightarrow> cell \<times> cell" where
  "stored r0 r1 =
     (case r1 of
        NaN \<Rightarrow>
          (case r0 of
             Str s \<Rightarrow>
               if str_contains (py ''cm'') s then (Str (str_replace (py '' cm'') [] s), NaN)
               else if str_contains (py ''kg'') s then (NaN, Str (str_replace (py '' kg'') [] s))
               else (NaN, NaN)
           | _ \<Rightarrow> (NaN, NaN))
      | Str s1 \<Rightarrow>
          ((case r0 of Str s \<Rightarrow> Str (str_replace (py '' cm'') [] s) | _ \<Rightarrow> NaN),
           Str (str_replace (py '' kg'') [] s1))
      | _ \<Rightarrow> (NaN, NaN))"

fun iterrows_loop :: "series list \<Rightarrow> nat list \<Rightarrow> series \<times> series \<Rightarrow> error + series \<times> series" where
  "iterrows_loop nd [] hw = Inr hw"
| "iterrows_loop nd (i # is) hw =
     (case loop_body (row_at nd i) i hw of
        Inl e \<Rightarrow> Inl e
      | Inr hw1 \<Rightarrow> iterrows_loop nd is hw1)"

text \<open>
  \<^verbatim>\<open>new_data4 = df["Measurements"].str.split("/", expand=True)\<close>, stripped column by
  column; \<^verbatim>\<open>height_cm\<close> and \<^verbatim>\<open>weight_kg\<close> start as columns of \<^verbatim>\<open>None\<close>; the loop fills
  them; both are converted to numbers and \<^verbatim>\<open>Measurements\<close> is dropped.
\<close>

definition measurements_stage :: "frame \<Rightarrow> error + frame" where
  "measurements_stage df =
     (case getcol df ''Measurements'' of
        Inl e \<Rightarrow> Inl e
      | Inr m \<Rightarrow>
     (let new_data4 = map (str_map str_strip) (str_split_expand (py ''/'') m);
          none = replicate (nrows df) NaN
      in (case iterrows_loop new_data4 [0..<length m] (none, none) of
            Inl e \<Rightarrow> Inl e
          | Inr hw \<Rightarrow>
              drop_columns
                (setcol (setcol df ''height_cm'' (to_numeric (fst hw)))
                   ''weight_kg'' (to_numeric (snd hw)))
                [''Measurements''])))"

subsection \<open>Final columns and missing values\<close>

definition final_columns :: "string list" where
  "final_columns =
     [''athlete_id'', ''name'', ''Sex'', ''birth_date'', ''City'', ''Region'', ''Country'',
      ''NOC'', ''height_cm'', ''weight_kg'', ''Roles'', ''Affiliations'']"

definition project_stage :: "frame \<Rightarrow> error + frame" where
  "project_stage df = select_columns df final_columns"

definition unknown :: cell where
  "unknown = Str (py ''Unknown'')"

definition sentinel :: cell where
  "sentinel = Date 1975 1 1"

text \<open>One pass of the loop over the numeric columns: the column \<^verbatim>\<open>i\<close> of the frame
  becomes \<^verbatim>\<open>imputer.fit_transform\<close> of the one-column frame of \<^verbatim>\<open>i\<close>.\<close>

definition impute_col :: "string \<Rightarrow> frame \<Rightarrow> error + frame" where
  "impute_col name df =
     (case getcol df name of
        Inl e \<Rightarrow> Inl e
      | Inr c \<Rightarrow> (case fit_transform c of Inl e \<Rightarrow> Inl e | Inr c1 \<Rightarrow> Inr (setcol df name c1)))"

text \<open>The columns that \<^verbatim>\<open>df.select_dtypes(include="number")\<close> finds in the projected
  frame, in its order: the identifier and the two measurements.\<close>

definition number_columns :: "string list" where
  "number_columns = [''athlete_id'', ''height_cm'', ''weight_kg'']"

definition fill_stage :: "frame \<Rightarrow> error + frame" where
  "fill_stage df =
     apply_each
       (map (\<lambda>n. update_col n (fillna unknown)) [''City'', ''Region'', ''Country'', ''Affiliations'']
        @ map impute_col number_columns
        @ [update_col ''birth_date'' (fillna sentinel),
           update_col ''height_cm'' round1,
           update_col ''weight_kg'' round1]) df"

subsection \<open>The whole run\<close>

definition after_dedup :: "frame \<Rightarrow> error + frame" where
  "after_dedup df =
     apply_each
       [prune_stage, name_stage, born_stage, city_stage, region_stage, noc_stage,
        measurements_stage, project_stage, fill_stage] df"

definition clean :: "frame \<Rightarrow> error + frame" where
  "clean df = after_dedup (drop_duplicates df)"

subsection \<open>Sample tables\<close>

definition raw_columns :: "string list" where
  "raw_columns =
     [''Roles'', ''Sex'', ''Full name'', ''Used name'', ''Born'', ''Died'', ''NOC'',
      ''athlete_id'', ''Measurements'', ''Affiliations'', ''Nick/petnames'', ''Title(s)'',
      ''Other names'', ''Nationality'', ''Original name'', ''Name order'']"

definition frame_of_rows :: "string list \<Rightarrow> cell list list \<Rightarrow> frame" where
  "frame_of_rows names rs = map (\<lambda>k. (names ! k, map (\<lambda>r. r ! k) rs)) [0..<length names]"

definition roles_text :: cell where
  "roles_text = Str (py ''Competed in Olympic Games'')"

definition raw_row :: "pystr \<Rightarrow> pystr \<Rightarrow> cell \<Rightarrow> cell \<Rightarrow> rat \<Rightarrow> cell \<Rightarrow> cell \<Rightarrow> cell list" where
  "raw_row full used born noc ident meas aff =
     [roles_text, Str (py ''Male''), Str full, Str used, born, NaN,
      noc, Num ident, meas, aff, NaN, NaN, NaN, NaN, NaN, NaN]"

text \<open>The birth text of the round-trip example; its qualifier starts with U+00CE.\<close>

definition born_paris :: pystr where
  "born_paris = py ''12 January 1980 in Paris, France ('' @ [206] @ py ''le-de-France)''"

definition ile_de_france :: pystr where
  "ile_de_france = [206] @ py ''le-de-France''"

definition table_no_in :: frame where
  "table_no_in = frame_of_rows raw_columns
     [raw_row (py ''Jean Dupont'') (py ''Jean Dupont'') (Str (py ''12 January 1980''))
        (Str (py ''France'')) 1 (Str (py ''178 cm / 75 kg'')) NaN]"

definition table_no_slash :: frame where
  "table_no_slash = frame_of_rows raw_columns
     [raw_row (py ''Jean Dupont'') (py ''Jean Dupont'') (Str born_paris)
        (Str (py ''France'')) 1 (Str (py ''178 cm'')) NaN]"

definition table_turin :: frame where
  "table_turin = frame_of_rows raw_columns
     [raw_row (py ''Jean Dupont'') (py ''Jean Dupont'') (Str born_paris)
        (Str (py ''France'')) 1 (Str (py ''178 cm / 75 kg'')) NaN,
      raw_row (py ''Lia Rossi'') (py ''Lia Rossi'')
        (Str (py ''1 June 2001 in Turin, Piemonte (ITA)''))
        (Str (py ''Italy'')) 2 (Str (py ''160 cm / 50 kg'')) NaN]"

definition column_with_tie :: frame where
  "column_with_tie = [(''height_cm'', [Num 180, Num 170, NaN])]"

definition table_dup :: frame where
  "table_dup =
     [(''athlete_id'', [Num 1, Num 2, Num 1, Num 1]),
      (''Sex'', [Str (py ''Male''), Str (py ''Female''), Str (py ''Male''), Str (py ''Female'')])]"

definition table_sample :: frame where
  "table_sample = frame_of_rows raw_columns
     [raw_row (py ''Jean Dupont'') (py ''Jean'' @ bullet @ py ''Dupont'') (Str born_paris)
        (Str (py ''France'')) 1 (Str (py ''178 cm / 75 kg'')) NaN,
      raw_row (py ''Ann Lee'') (py ''Ann'' @ bullet @ py ''Lee'')
        (Str (py ''3 May 1990 in New York, New York (USA)''))
        (Str (py ''United States'')) 2 (Str (py ''178 cm'')) (Str (py ''NYAC'')),
      raw_row (py ''Jean Dupont'') (py ''Jean'' @ bullet @ py ''Dupont'') (Str born_paris)
        (Str (py ''France'')) 1 (Str (py ''178 cm / 75 kg'')) NaN,
      raw_row (py ''Bo Berg'') (py ''Bo'' @ bullet @ py ''Berg'') NaN NaN 3 (Str (py ''75 kg'')) NaN,
      raw_row (py ''Lia Rossi'') (py ''Lia'' @ bullet @ py ''Rossi'') NaN
        (Str (py ''Italy'')) 4 (Str (py ''75 kg'')) NaN]"

definition sample_out :: frame where
  "sample_out = frame_of_rows final_columns
     [ [Num 1, Str (py ''Jean Dupont''), Str (py ''Male''), Date 1980 1 12, Str (py ''Paris''),
       Str (py ''France''), Str ile_de_france, Str (py ''France''), Num 178, Num 75,
       roles_text, unknown],
      [Num 2, Str (py ''Ann Lee''), Str (py ''Male''), Date 1990 5 3, Str (py ''NewYork''),
       Str (py ''NewYork''), Str (py ''USA''), Str (py ''United States''), Num 178, Num 75,
       roles_text, Str (py ''NYAC'')],
      [Num 4, Str (py ''Lia Rossi''), Str (py ''Male''), Date 1975 1 1, unknown, unknown,
       unknown, Str (py ''Italy''), Num 178, Num 75, roles_text, unknown] ]"

definition sample_born :: series where
  "sample_born =
     [Str born_paris, Str (py ''3 May 1990 in New York, New York (USA)''), NaN, NaN]"

definition sample_noc :: series where
  "sample_noc = [Str (py ''France''), Str (py ''United States''), NaN, Str (py ''Italy'')]"

definition measurements_sample :: series where
  "measurements_sample =
     [Str (py ''178 cm''), Str (py ''75 kg''), Str (py ''178 cm / 75 kg''),
      Str (py ''75 kg / 178 cm''), Str (py ''178cm'')]"

definition frame_meas :: frame where
  "frame_meas = [(''Measurements'', measurements_sample)]"

definition meas_out :: frame where
  "meas_out =
     [(''height_cm'', [Num 178, NaN, Num 178, NaN, NaN]),
      (''weight_kg'', [NaN, Num 75, Num 75, NaN, NaN])]"

definition table_units :: frame where
  "table_units = frame_of_rows raw_columns
     [raw_row (py ''Jean Dupont'') (py ''Jean Dupont'') (Str born_paris)
        (Str (py ''France'')) 1 (Str (py ''180 cm / 80 kg'')) NaN,
      raw_row (py ''Ann Lee'') (py ''Ann Lee'') (Str born_paris)
        (Str (py ''France'')) 2 (Str (py ''75 kg / 178 cm'')) NaN,
      raw_row (py ''Lia Rossi'') (py ''Lia Rossi'') (Str born_paris)
        (Str (py ''France'')) 3 (Str (py ''178cm'')) NaN]"


section \<open>Evaluation\<close>

lemmas model_defs =
  py_def bullet_def str_split_def isspace_def str_strip_def isna_def notna_def getcol_def
  insert_col_def drop_columns_def select_columns_def filter_mask_def filter_rows_def nrows_def
  row_of_def rows_def str_map_def split_parts_def parts_len_def part_at_def
  str_split_expand_def icol_def isdigit_def digits_val_def year_re_def leap_year_def
  days_in_month_def in_timestamp_range_def strptime_dmy_def to_datetime_def isspace_ascii_def
  unsigned_val_def parse_number_def numeric_cell_def to_numeric_def observed_def
  most_frequent_def fit_transform_def round_half_even_def round1_def fillna_def
  replace_value_def replace_regex_def update_col_def duplicated_def drop_duplicates_def
  unwanted_columns_def arranged_columns_def prune_stage_def name_stage_def months_def
  new_cols1_def strip_column_def remove_spaces_def born_stage_def new_cols2_def new_cols3_def
  city_stage_def region_stage_def noc_stage_def row_at_def row_get_def store_height_def
  store_weight_def cell_contains_def loop_body_def measurements_stage_def final_columns_def
  project_stage_def unknown_def sentinel_def impute_col_def number_columns_def fill_stage_def
  after_dedup_def clean_def raw_columns_def frame_of_rows_def raw_row_def born_paris_def
  ile_de_france_def roles_text_def stored_def Let_def upt_rec

section \<open>Frames\<close>

text \<open>What each operation on a frame does to the column that \<open>getcol\<close> reads.\<close>

lemma apply_each_Cons_Inr:
  "apply_each (f # fs) s = Inr t \<longleftrightarrow> (\<exists>s'. f s = Inr s' \<and> apply_each fs s' = Inr t)"
  by (simp split: sum.splits)

lemma map_of_setcol: "map_of (setcol df n c) = (map_of df)(n \<mapsto> c)"
  by (induction df n c rule: setcol.induct) auto

lemma getcol_setcol: "getcol (setcol df n c) m = (if m = n then Inr c else getcol df m)"
  by (simp add: getcol_def map_of_setcol)

lemma names_setcol: "n \<in> set (map fst df) \<Longrightarrow> map fst (setcol df n c) = map fst df"
  by (induction df n c rule: setcol.induct) auto

lemma getcol_Inr_names: "getcol df n = Inr c \<Longrightarrow> n \<in> set (map fst df)"
  by (auto simp: getcol_def split: option.splits dest: map_of_SomeD intro: rev_image_eqI)

lemma getcol_Inl_iff: "(\<exists>e. getcol df n = Inl e) \<longleftrightarrow> n \<notin> set (map fst df)"
proof (cases "map_of df n")
  case None
  then have "n \<notin> fst ` set df" by (simp add: map_of_eq_None_iff)
  with None show ?thesis by (simp add: getcol_def)
next
  case (Some c)
  then have "n \<in> fst ` set df" by (metis map_of_SomeD fst_conv image_eqI)
  with Some show ?thesis by (simp add: getcol_def)
qed


lemma map_of_insert_at:
  "n \<notin> set (map fst df) \<Longrightarrow> map_of (take k df @ (n, c) # drop k df) = (map_of df)(n \<mapsto> c)"
proof (induction df arbitrary: k)
  case Nil then show ?case by simp
next
  case (Cons p df)
  then show ?case by (cases k) (auto simp: fun_eq_iff)
qed

lemma getcol_insert_col:
  "insert_col df k n c = Inr df' \<Longrightarrow> getcol df' m = (if m = n then Inr c else getcol df m)"
  by (auto simp: insert_col_def getcol_def map_of_insert_at simp del: map_of_append split: if_splits)

lemma names_insert_col:
  assumes "insert_col df k n c = Inr df'"
  shows "set (map fst df') = insert n (set (map fst df))"
proof -
  have "df' = take k df @ (n, c) # drop k df"
    using assms by (auto simp: insert_col_def split: if_splits)
  moreover have "set (take k df) \<union> set (drop k df) = set df"
    by (metis append_take_drop_id set_append)
  ultimately have "set df' = insert (n, c) (set df)" by auto
  then show ?thesis by simp
qed

lemma update_col_Inr:
  "update_col n f df = Inr df' \<longleftrightarrow> (\<exists>c. getcol df n = Inr c \<and> df' = setcol df n (f c))"
  by (auto simp: update_col_def split: sum.splits)

lemma getcol_update_col:
  "update_col n f df = Inr df' \<Longrightarrow> getcol df' m = (if m = n then map_sum id f (getcol df n) else getcol df m)"
  by (auto simp: update_col_Inr getcol_setcol)

lemma map_of_filter_names:
  "map_of (filter (\<lambda>p. fst p \<notin> N) df) m = (if m \<in> N then None else map_of df m)"
  by (induction df) auto

lemma getcol_drop_columns:
  "drop_columns df ns = Inr df' \<Longrightarrow>
   getcol df' m = (if m \<in> set ns then Inl (KeyError m) else getcol df m)"
  by (auto simp: drop_columns_def getcol_def map_of_filter_names split: list.splits)

lemma drop_columns_Inr:
  "drop_columns df ns = Inr df' \<longleftrightarrow> (set ns \<subseteq> set (map fst df) \<and> df' = filter (\<lambda>p. fst p \<notin> set ns) df)"
proof -
  have "filter (\<lambda>n. n \<notin> set (map fst df)) ns = [] \<longleftrightarrow> set ns \<subseteq> set (map fst df)"
    by (auto simp: filter_empty_conv)
  then show ?thesis
    by (cases "filter (\<lambda>n. n \<notin> set (map fst df)) ns") (auto simp: drop_columns_def)
qed

lemma select_columns_Inr:
  "select_columns df ns = Inr df' \<longleftrightarrow> (set ns \<subseteq> set (map fst df) \<and> df' = map (\<lambda>n. (n, the (map_of df n))) ns)"
proof -
  have "filter (\<lambda>n. n \<notin> set (map fst df)) ns = [] \<longleftrightarrow> set ns \<subseteq> set (map fst df)"
    by (auto simp: filter_empty_conv)
  then show ?thesis
    by (cases "filter (\<lambda>n. n \<notin> set (map fst df)) ns") (auto simp: select_columns_def)
qed

lemma map_of_select: "map_of (map (\<lambda>n. (n, f n)) ns) m = (if m \<in> set ns then Some (f m) else None)"
  by (induction ns) auto

lemma getcol_select_columns:
  "select_columns df ns = Inr df' \<Longrightarrow>
   getcol df' m = (if m \<in> set ns then getcol df m else Inl (KeyError m))"
proof -
  assume a: "select_columns df ns = Inr df'"
  then have sub: "set ns \<subseteq> set (map fst df)" and eq: "df' = map (\<lambda>n. (n, the (map_of df n))) ns"
    by (simp_all add: select_columns_Inr)
  show ?thesis
  proof (cases "m \<in> set ns")
    case True
    with sub have "m \<in> fst ` set df" by auto
    then obtain c where "map_of df m = Some c"
      by (metis map_of_eq_None_iff not_Some_eq)
    with True eq show ?thesis by (simp add: getcol_def map_of_select)
  next
    case False
    with eq show ?thesis by (simp add: getcol_def map_of_select)
  qed
qed

lemma names_select_columns: "select_columns df ns = Inr df' \<Longrightarrow> map fst df' = ns"
  by (auto simp: select_columns_Inr comp_def)

lemma map_of_filter_rows: "map_of (filter_rows keep df) m = map_option (filter_mask keep) (map_of df m)"
  by (induction df) (auto simp: filter_rows_def)

lemma getcol_filter_rows: "getcol (filter_rows keep df) m = map_sum id (filter_mask keep) (getcol df m)"
  by (auto simp: getcol_def map_of_filter_rows split: option.splits)

lemma names_filter_rows: "map fst (filter_rows keep df) = map fst df"
  by (simp add: filter_rows_def comp_def)

section \<open>The imputer\<close>

lemma most_frequent_Some:
  assumes "most_frequent xs = Some v"
  shows "v \<in> set xs \<and> (\<forall>x\<in>set xs. count_list xs x \<le> count_list xs v \<and>
           (count_list xs x = count_list xs v \<longrightarrow> v \<le> x))"
proof -
  from assms have ne: "xs \<noteq> []" by (auto simp: most_frequent_def split: if_splits)
  define top where "top = Max (set (map (count_list xs) xs))"
  define best where "best = filter (\<lambda>x. count_list xs x = top) xs"
  have v: "v = Min (set best)"
    using assms ne by (simp add: most_frequent_def Let_def top_def best_def)
  have fin: "finite (set (map (count_list xs) xs))" by simp
  have nonempty: "set (map (count_list xs) xs) \<noteq> {}" using ne by simp
  have "top \<in> set (map (count_list xs) xs)"
    unfolding top_def using Max_in [OF fin nonempty] .
  then obtain y where y: "y \<in> set xs" "count_list xs y = top" by auto
  then have bne: "set best \<noteq> {}" by (auto simp: best_def)
  have vin: "v \<in> set best" unfolding v using Min_in [of "set best"] bne by simp
  then have vxs: "v \<in> set xs" and vtop: "count_list xs v = top" by (auto simp: best_def)
  have le: "count_list xs x \<le> top" if "x \<in> set xs" for x
    unfolding top_def using that by (intro Max_ge) auto
  have small: "v \<le> x" if "x \<in> set xs" "count_list xs x = top" for x
  proof -
    from that have "x \<in> set best" by (simp add: best_def)
    then show ?thesis unfolding v by (intro Min_le) auto
  qed
  show ?thesis using vxs vtop le small by auto
qed

lemma fit_transform_Inr:
  "fit_transform c = Inr c' \<Longrightarrow>
   \<exists>v. most_frequent (observed c) = Some v \<and> c' = map (\<lambda>x. if x = NaN then Num v else x) c"
  by (auto simp: fit_transform_def isna_def split: option.splits)

lemma impute_col_Inr:
  "impute_col n df = Inr df' \<Longrightarrow>
   \<exists>c c'. getcol df n = Inr c \<and> fit_transform c = Inr c' \<and> df' = setcol df n c'"
  by (auto simp: impute_col_def split: sum.splits)

section \<open>Rows of a filtered frame\<close>

lemma filter_mask_nth:
  assumes "length keep = length xs"
  shows "filter_mask keep xs = map (nth xs) (filter (nth keep) [0..<length xs])"
proof -
  have z: "zip xs keep = map (\<lambda>i. (xs ! i, keep ! i)) [0..<length xs]"
    using assms by (intro nth_equalityI) simp_all
  show ?thesis
    unfolding filter_mask_def z by (simp add: filter_map comp_def)
qed

lemma filter_mask_kept:
  "length keep = length xs \<Longrightarrow> filter_mask keep xs = map (nth xs) (kept keep)"
  by (simp add: filter_mask_nth kept_def)

lemma kept_less: "i \<in> set (kept keep) \<Longrightarrow> i < length keep"
  by (simp add: kept_def)

lemma rectangular_length:
  "rectangular df \<Longrightarrow> p \<in> set df \<Longrightarrow> length (snd p) = nrows df"
  by (simp add: rectangular_def list_all_iff)

lemma nrows_filter_rows:
  assumes "rectangular df" "length keep = nrows df" "df \<noteq> []"
  shows "nrows (filter_rows keep df) = length (kept keep)"
proof -
  from assms(3) obtain p ps where df: "df = p # ps" by (cases df) auto
  then have "length (snd p) = length keep" using assms by (simp add: nrows_def)
  then show ?thesis using df by (simp add: nrows_def filter_rows_def filter_mask_kept)
qed

lemma rectangular_filter_rows:
  assumes "rectangular df" "length keep = nrows df"
  shows "rectangular (filter_rows keep df)"
proof (cases "df = []")
  case True then show ?thesis by (simp add: rectangular_def filter_rows_def)
next
  case False
  have "length (filter_mask keep (snd p)) = length (kept keep)" if "p \<in> set df" for p
    using rectangular_length [OF assms(1) that] assms(2) by (simp add: filter_mask_kept)
  then show ?thesis
    using nrows_filter_rows [OF assms False]
    by (auto simp: rectangular_def list_all_iff filter_rows_def)
qed

lemma rows_filter_rows:
  assumes "rectangular df" "length keep = nrows df"
  shows "rows (filter_rows keep df) = filter_mask keep (rows df)"
proof (cases "df = []")
  case True then show ?thesis by (simp add: rows_def filter_rows_def nrows_def filter_mask_def)
next
  case False
  have len: "length (rows df) = length keep" using assms by (simp add: rows_def)
  have row: "row_of (filter_rows keep df) k = row_of df (kept keep ! k)"
    if "k < length (kept keep)" for k
  proof -
    have "filter_mask keep (snd p) ! k = snd p ! (kept keep ! k)" if "p \<in> set df" for p
      using rectangular_length [OF assms(1) that] assms(2) \<open>k < length (kept keep)\<close>
      by (simp add: filter_mask_kept)
    then show ?thesis by (simp add: row_of_def filter_rows_def)
  qed
  have "rows (filter_rows keep df) = map (row_of df) (kept keep)"
    unfolding rows_def nrows_filter_rows [OF assms False]
    by (intro nth_equalityI) (simp_all add: row)
  also have "\<dots> = map (nth (rows df)) (kept keep)"
    using assms(2) by (auto simp: rows_def dest: kept_less)
  also have "\<dots> = filter_mask keep (rows df)"
    using len by (simp add: filter_mask_kept)
  finally show ?thesis .
qed

lemma duplicated_rows:
  "duplicated df = map (\<lambda>i. \<exists>j<i. rows df ! j = rows df ! i) [0..<nrows df]"
proof -
  have "list_ex (\<lambda>j. row_of df j = row_of df i) [0..<i] \<longleftrightarrow>
        (\<exists>j<i. rows df ! j = rows df ! i)" if "i < nrows df" for i
  proof -
    have "rows df ! j = row_of df j" if "j \<le> i" for j
      using that \<open>i < nrows df\<close> by (simp add: rows_def)
    then have "(\<exists>j\<in>set [0..<i]. row_of df j = row_of df i) \<longleftrightarrow>
        (\<exists>j<i. rows df ! j = rows df ! i)"
      by (metis atLeastLessThan_iff less_imp_le order_refl set_upt zero_le)
    then show ?thesis by (simp only: list_ex_iff)
  qed
  then show ?thesis by (simp add: duplicated_def)
qed

lemma length_duplicated: "length (duplicated df) = nrows df"
  by (simp add: duplicated_def)

lemma kept_not_duplicated:
  "kept (map Not (duplicated df)) =
   filter (\<lambda>i. \<forall>j<i. rows df ! j \<noteq> rows df ! i) [0..<nrows df]"
proof -
  have "map Not (duplicated df) ! i = (\<forall>j<i. rows df ! j \<noteq> rows df ! i)" if "i < nrows df" for i
    using that by (simp add: duplicated_rows)
  then have "filter ((!) (map Not (duplicated df))) [0..<nrows df] =
      filter (\<lambda>i. \<forall>j<i. rows df ! j \<noteq> rows df ! i) [0..<nrows df]"
    by (intro filter_cong) (simp_all add: length_duplicated)
  then show ?thesis by (simp add: kept_def length_duplicated)
qed

lemma nths_filter_upt: "nths xs A = map (nth xs) (filter (\<lambda>i. i \<in> A) [0..<length xs])"
proof -
  have z: "zip xs [0..<length xs] = map (\<lambda>i. (xs ! i, i)) [0..<length xs]"
    by (intro nth_equalityI) simp_all
  show ?thesis unfolding nths_def z by (simp add: filter_map comp_def)
qed

lemma rows_drop_duplicates:
  assumes "rectangular df"
  shows "rows (drop_duplicates df) = nths (rows df) {i. \<forall>j<i. rows df ! j \<noteq> rows df ! i}"
proof -
  have "rows (drop_duplicates df) = filter_mask (map Not (duplicated df)) (rows df)"
    unfolding drop_duplicates_def using assms
    by (intro rows_filter_rows) (simp_all add: length_duplicated)
  also have "\<dots> = map (nth (rows df)) (kept (map Not (duplicated df)))"
    by (intro filter_mask_kept) (simp add: length_duplicated rows_def)
  also have "\<dots> = nths (rows df) {i. \<forall>j<i. rows df ! j \<noteq> rows df ! i}"
    by (simp add: kept_not_duplicated nths_filter_upt rows_def)
  finally show ?thesis .
qed

lemma distinct_first_occurrences:
  "distinct (map (nth xs) (filter (\<lambda>i. \<forall>j<i. xs ! j \<noteq> xs ! i) [0..<length xs]))"
proof -
  have "inj_on (nth xs) {i. i < length xs \<and> (\<forall>j<i. xs ! j \<noteq> xs ! i)}"
  proof (rule inj_onI)
    fix a b assume a: "a \<in> {i. i < length xs \<and> (\<forall>j<i. xs ! j \<noteq> xs ! i)}"
      and b: "b \<in> {i. i < length xs \<and> (\<forall>j<i. xs ! j \<noteq> xs ! i)}" and eq: "xs ! a = xs ! b"
    show "a = b"
    proof (rule ccontr)
      assume "a \<noteq> b"
      then consider "a < b" | "b < a" by linarith
      then show False using a b eq by cases auto
    qed
  qed
  moreover have "set (filter (\<lambda>i. \<forall>j<i. xs ! j \<noteq> xs ! i) [0..<length xs]) =
      {i. i < length xs \<and> (\<forall>j<i. xs ! j \<noteq> xs ! i)}"
    by auto
  ultimately show ?thesis by (simp add: distinct_map)
qed

lemma distinct_rows_drop_duplicates:
  assumes "rectangular df"
  shows "distinct (rows (drop_duplicates df))"
  using distinct_first_occurrences [of "rows df"]
  by (simp add: rows_drop_duplicates [OF assms] nths_filter_upt)

lemma filter_mask_all: "length keep = length xs \<Longrightarrow> \<forall>b\<in>set keep. b \<Longrightarrow> filter_mask keep xs = xs"
proof (induction xs arbitrary: keep)
  case Nil then show ?case by (simp add: filter_mask_def)
next
  case (Cons x xs)
  then obtain b bs where "keep = b # bs" by (cases keep) auto
  with Cons show ?case by (auto simp: filter_mask_def)
qed

lemma filter_rows_all:
  assumes "rectangular df" "length keep = nrows df" "\<forall>b\<in>set keep. b"
  shows "filter_rows keep df = df"
proof -
  have "filter_mask keep (snd p) = snd p" if "p \<in> set df" for p
    using rectangular_length [OF assms(1) that] assms(2,3) by (intro filter_mask_all) simp_all
  then have "map (\<lambda>p. (fst p, filter_mask keep (snd p))) df = map (\<lambda>p. p) df"
    by (intro map_cong) auto
  then show ?thesis by (simp add: filter_rows_def)
qed

lemma drop_duplicates_distinct:
  assumes "rectangular df" "distinct (rows df)"
  shows "drop_duplicates df = df"
proof -
  have "\<not> (\<exists>j<i. rows df ! j = rows df ! i)" if "i < nrows df" for i
  proof
    assume "\<exists>j<i. rows df ! j = rows df ! i"
    then obtain j where "j < i" "rows df ! j = rows df ! i" by blast
    moreover have "length (rows df) = nrows df" by (simp add: rows_def)
    ultimately show False using assms(2) that by (auto simp: distinct_conv_nth)
  qed
  then have "\<forall>b\<in>set (map Not (duplicated df)). b" by (auto simp: duplicated_rows)
  then show ?thesis
    unfolding drop_duplicates_def using assms(1)
    by (intro filter_rows_all) (simp_all add: length_duplicated)
qed

lemma rectangular_drop_duplicates: "rectangular df \<Longrightarrow> rectangular (drop_duplicates df)"
  unfolding drop_duplicates_def by (intro rectangular_filter_rows) (simp_all add: length_duplicated)

section \<open>The stages, column by column\<close>

lemma insert_col_Inr:
  "insert_col df k n c = Inr df' \<longleftrightarrow> n \<notin> set (map fst df) \<and> df' = take k df @ (n, c) # drop k df"
  by (auto simp: insert_col_def)

lemma apply_each_Nil_Inr: "apply_each [] s = Inr t \<longleftrightarrow> t = s"
  by auto

lemma upt_two: "[0..<length [a, b]] = [0, Suc 0]"
  by (simp add: upt_rec)

lemma insert_loop_two:
  assumes "insert_loop anchor [a, b] nd [0, Suc 0] df = Inr df'"
  shows "1 < length nd \<and>
         (\<forall>m. getcol df' m = (if m = b then Inr (nd ! 1) else if m = a then Inr (nd ! 0) else getcol df m))"
proof -
  from assms obtain loc df1 loc1 where
    i0: "icol nd 0 = Inr (nd ! 0)" and
    s0: "insert_col df (loc + 1 + 0) a (nd ! 0) = Inr df1" and
    i1: "icol nd (Suc 0) = Inr (nd ! 1)" and
    s1: "insert_col df1 (loc1 + 1 + Suc 0) b (nd ! 1) = Inr df'"
    by (auto simp: icol_def split: sum.splits if_splits)
  from i1 have "1 < length nd" by (simp add: icol_def split: if_splits)
  moreover have "getcol df' m = (if m = b then Inr (nd ! 1) else if m = a then Inr (nd ! 0) else getcol df m)" for m
    using getcol_insert_col [OF s1, of m] getcol_insert_col [OF s0, of m] by simp
  ultimately show ?thesis by simp
qed

lemma prune_stage_Inr:
  assumes "prune_stage df = Inr df'"
  shows "map fst df' = arranged_columns \<and>
         (\<forall>m. getcol df' m = (if m \<in> set arranged_columns then getcol df m else Inl (KeyError m)))"
proof -
  from assms obtain df1 where d: "drop_columns df unwanted_columns = Inr df1"
    and s: "select_columns df1 arranged_columns = Inr df'"
    by (auto simp: prune_stage_def split: sum.splits)
  have "getcol df1 m = getcol df m" if "m \<in> set arranged_columns" for m
    using that getcol_drop_columns [OF d, of m]
    by (auto simp: arranged_columns_def unwanted_columns_def)
  then show ?thesis
    using getcol_select_columns [OF s] names_select_columns [OF s] by simp
qed

lemma name_stage_Inr:
  assumes "name_stage df = Inr df'"
  shows "\<exists>used. getcol df ''Used name'' = Inr used \<and>
           (\<forall>m. getcol df' m =
              (if m = ''Full name'' \<or> m = ''Used name'' then Inl (KeyError m)
               else if m = ''name'' then Inr (str_map (str_replace bullet (py '' '')) used)
               else getcol df m))"
proof -
  from assms obtain loc used df1 where
    u: "getcol df ''Used name'' = Inr used" and
    i: "insert_col df (loc + 1) ''name'' (str_map (str_replace bullet (py '' '')) used) = Inr df1" and
    d: "drop_columns df1 [''Full name'', ''Used name''] = Inr df'"
    by (auto simp: name_stage_def split: sum.splits)
  show ?thesis
    using u getcol_drop_columns [OF d] getcol_insert_col [OF i] by auto
qed

lemma born_stage_Inr:
  assumes "born_stage df = Inr df'"
  shows "\<exists>born. getcol df ''Born'' = Inr born \<and> 1 < length (str_split_expand (py ''in'') born) \<and>
           (\<forall>m. getcol df' m =
              (if m = ''birth_location''
               then Inr (remove_spaces (strip_column (str_split_expand (py ''in'') born ! 1)))
               else if m = ''birth_date''
               then Inr (to_datetime (remove_spaces (strip_column (replace_regex months
                      (str_split_expand (py ''in'') born ! 0)))))
               else getcol df m))"
proof -
  from assms obtain born where b: "getcol df ''Born'' = Inr born"
    by (auto simp: born_stage_def split: sum.splits)
  define nd where "nd = str_split_expand (py ''in'') born"
  define nda where "nda = nd[0 := strip_column (replace_regex months (nd ! 0))]"
  define ndb where "ndb = nda[1 := strip_column (nd ! 1)]"
  from assms b obtain df1 where
    l1: "1 < length nd" and
    il: "insert_loop ''Born'' new_cols1 ndb [0..<length new_cols1] df = Inr df1" and
    ae: "apply_each [update_col ''birth_date'' remove_spaces, update_col ''birth_date'' to_datetime,
           update_col ''birth_location'' remove_spaces] df1 = Inr df'"
    by (auto simp: born_stage_def Let_def icol_def nd_def nda_def ndb_def split: sum.splits if_splits)
  from il have il': "insert_loop ''Born'' [''birth_date'', ''birth_location''] ndb [0, Suc 0] df = Inr df1"
    by (simp add: new_cols1_def upt_rec)
  from insert_loop_two [OF il'] have g1: "getcol df1 m =
      (if m = ''birth_location'' then Inr (ndb ! 1) else if m = ''birth_date'' then Inr (ndb ! 0) else getcol df m)" for m
    by simp
  from l1 have l0: "0 < length nd" by linarith
  have ndb0: "ndb ! 0 = strip_column (replace_regex months (nd ! 0))"
    and ndb1: "ndb ! 1 = strip_column (nd ! 1)"
    using l1 l0 by (simp_all add: ndb_def nda_def nth_list_update)
  from ae obtain d2 d3 where
    u1: "update_col ''birth_date'' remove_spaces df1 = Inr d2" and
    u2: "update_col ''birth_date'' to_datetime d2 = Inr d3" and
    u3: "update_col ''birth_location'' remove_spaces d3 = Inr df'"
    by (auto split: sum.splits)
  have "getcol df' m =
      (if m = ''birth_location'' then Inr (remove_spaces (strip_column (nd ! 1)))
       else if m = ''birth_date''
       then Inr (to_datetime (remove_spaces (strip_column (replace_regex months (nd ! 0)))))
       else getcol df m)" for m
    using getcol_update_col [OF u3, of m] getcol_update_col [OF u2, of m] getcol_update_col [OF u1, of m]
      getcol_update_col [OF u3, of "''birth_location''"] getcol_update_col [OF u2, of "''birth_location''"]
      getcol_update_col [OF u1, of "''birth_location''"]
      getcol_update_col [OF u2, of "''birth_date''"] getcol_update_col [OF u1, of "''birth_date''"]
      g1 [of m] g1 [of "''birth_date''"] g1 [of "''birth_location''"] ndb0 ndb1
    by (auto split: if_splits)
  with b l1 show ?thesis unfolding nd_def by blast
qed

lemma city_stage_Inr:
  assumes "city_stage df = Inr df'"
  shows "\<exists>loc. getcol df ''birth_location'' = Inr loc \<and> 1 < length (str_split_expand (py '','') loc) \<and>
           (\<forall>m. getcol df' m =
              (if m = ''Region_country'' then Inr (str_split_expand (py '','') loc ! 1)
               else if m = ''City'' then Inr (str_split_expand (py '','') loc ! 0)
               else getcol df m))"
proof -
  from assms obtain loc where l: "getcol df ''birth_location'' = Inr loc"
    and il: "insert_loop ''birth_location'' [''City'', ''Region_country''] (str_split_expand (py '','') loc)
               [0, Suc 0] df = Inr df'"
    by (auto simp: city_stage_def new_cols2_def upt_rec split: sum.splits)
  from insert_loop_two [OF il] l show ?thesis by blast
qed

lemma region_stage_Inr:
  assumes "region_stage df = Inr df'"
  shows "\<exists>rc. getcol df ''Region_country'' = Inr rc \<and> 1 < length (str_split_expand (py ''('') rc) \<and>
           (\<forall>m. getcol df' m =
              (if m \<in> {''Born'', ''birth_location'', ''Region_country'', ''Died''} then Inl (KeyError m)
               else if m = ''Country''
               then Inr (str_map (str_replace (py '')'') []) (str_split_expand (py ''('') rc ! 1))
               else if m = ''Region'' then Inr (str_split_expand (py ''('') rc ! 0)
               else getcol df m))"
proof -
  from assms obtain rc df1 d2 where r: "getcol df ''Region_country'' = Inr rc"
    and il: "insert_loop ''Region_country'' [''Region'', ''Country''] (str_split_expand (py ''('') rc)
               [0, Suc 0] df = Inr df1"
    and u: "update_col ''Country'' (str_map (str_replace (py '')'') [])) df1 = Inr d2"
    and d: "drop_columns d2 [''Born'', ''birth_location'', ''Region_country'', ''Died''] = Inr df'"
    by (auto simp: region_stage_def new_cols3_def upt_rec apply_each_Cons_Inr split: sum.splits)
  from insert_loop_two [OF il] have l: "1 < length (str_split_expand (py ''('') rc)"
    and g1: "\<And>m. getcol df1 m = (if m = ''Country'' then Inr (str_split_expand (py ''('') rc ! 1)
               else if m = ''Region'' then Inr (str_split_expand (py ''('') rc ! 0) else getcol df m)"
    by simp_all
  have "getcol df' m =
      (if m \<in> {''Born'', ''birth_location'', ''Region_country'', ''Died''} then Inl (KeyError m)
       else if m = ''Country''
       then Inr (str_map (str_replace (py '')'') []) (str_split_expand (py ''('') rc ! 1))
       else if m = ''Region'' then Inr (str_split_expand (py ''('') rc ! 0)
       else getcol df m)" for m
    using getcol_drop_columns [OF d, of m] getcol_update_col [OF u, of m] g1 [of m] g1 [of "''Country''"]
    by (auto split: if_splits)
  with r l show ?thesis by blast
qed

lemma noc_stage_Inr:
  assumes "noc_stage df = Inr df'"
  shows "\<exists>noc. getcol df ''NOC'' = Inr noc \<and> df' = filter_rows (map notna noc) df"
  using assms by (auto simp: noc_stage_def split: sum.splits)

lemma measurements_stage_Inr:
  assumes "measurements_stage df = Inr df'"
  shows "\<exists>meas hw. getcol df ''Measurements'' = Inr meas \<and>
           iterrows_loop (map (str_map str_strip) (str_split_expand (py ''/'') meas)) [0..<length meas]
             (replicate (nrows df) NaN, replicate (nrows df) NaN) = Inr hw \<and>
           (\<forall>m. getcol df' m =
              (if m = ''Measurements'' then Inl (KeyError m)
               else if m = ''weight_kg'' then Inr (to_numeric (snd hw))
               else if m = ''height_cm'' then Inr (to_numeric (fst hw))
               else getcol df m))"
proof -
  from assms obtain meas hw where m: "getcol df ''Measurements'' = Inr meas"
    and lp: "iterrows_loop (map (str_map str_strip) (str_split_expand (py ''/'') meas)) [0..<length meas]
             (replicate (nrows df) NaN, replicate (nrows df) NaN) = Inr hw"
    and d: "drop_columns (setcol (setcol df ''height_cm'' (to_numeric (fst hw))) ''weight_kg''
              (to_numeric (snd hw))) [''Measurements''] = Inr df'"
    by (auto simp: measurements_stage_def Let_def split: sum.splits)
  show ?thesis
    using m lp getcol_drop_columns [OF d]
    by (intro exI [of _ meas] exI [of _ hw]) (simp add: getcol_setcol)
qed

section \<open>The last stage and the whole run\<close>

lemma names_update_col: "update_col n f df = Inr df' \<Longrightarrow> map fst df' = map fst df"
  by (auto simp: update_col_Inr dest: getcol_Inr_names intro: names_setcol)

lemma names_impute_col: "impute_col n df = Inr df' \<Longrightarrow> map fst df' = map fst df"
  by (auto dest!: impute_col_Inr dest: getcol_Inr_names intro: names_setcol)

lemma getcol_impute_col_other:
  "impute_col n df = Inr df' \<Longrightarrow> m \<noteq> n \<Longrightarrow> getcol df' m = getcol df m"
  by (auto dest!: impute_col_Inr simp: getcol_setcol)

lemma getcol_update_col_other:
  "update_col n f df = Inr df' \<Longrightarrow> m \<noteq> n \<Longrightarrow> getcol df' m = getcol df m"
  by (simp add: getcol_update_col)

lemma getcol_update_col_same:
  "update_col n f df = Inr df' \<Longrightarrow> \<exists>c. getcol df n = Inr c \<and> getcol df' n = Inr (f c)"
  by (auto simp: update_col_Inr getcol_setcol)

lemma fill_stage_steps:
  assumes "fill_stage df = Inr df'"
  shows "\<exists>d1 d2 d3 d4 d5 d6 d7 d8 d9.
           update_col ''City'' (fillna unknown) df = Inr d1 \<and>
           update_col ''Region'' (fillna unknown) d1 = Inr d2 \<and>
           update_col ''Country'' (fillna unknown) d2 = Inr d3 \<and>
           update_col ''Affiliations'' (fillna unknown) d3 = Inr d4 \<and>
           impute_col ''athlete_id'' d4 = Inr d5 \<and>
           impute_col ''height_cm'' d5 = Inr d6 \<and>
           impute_col ''weight_kg'' d6 = Inr d7 \<and>
           update_col ''birth_date'' (fillna sentinel) d7 = Inr d8 \<and>
           update_col ''height_cm'' round1 d8 = Inr d9 \<and>
           update_col ''weight_kg'' round1 d9 = Inr df'"
  using assms unfolding fill_stage_def number_columns_def
  by (simp add: apply_each_Cons_Inr apply_each_Nil_Inr del: apply_each.simps)

lemma fill_stage_names: "fill_stage df = Inr df' \<Longrightarrow> map fst df' = map fst df"
  by (drule fill_stage_steps) (auto dest!: names_update_col names_impute_col)

lemma fill_stage_text:
  assumes "fill_stage df = Inr df'"
    and "m \<in> {''City'', ''Region'', ''Country'', ''Affiliations''}"
  shows "\<exists>c. getcol df m = Inr c \<and> getcol df' m = Inr (fillna unknown c)"
proof -
  from fill_stage_steps [OF assms(1)] obtain d1 d2 d3 d4 d5 d6 d7 d8 d9 where s:
    "update_col ''City'' (fillna unknown) df = Inr d1"
    "update_col ''Region'' (fillna unknown) d1 = Inr d2"
    "update_col ''Country'' (fillna unknown) d2 = Inr d3"
    "update_col ''Affiliations'' (fillna unknown) d3 = Inr d4"
    "impute_col ''athlete_id'' d4 = Inr d5"
    "impute_col ''height_cm'' d5 = Inr d6"
    "impute_col ''weight_kg'' d6 = Inr d7"
    "update_col ''birth_date'' (fillna sentinel) d7 = Inr d8"
    "update_col ''height_cm'' round1 d8 = Inr d9"
    "update_col ''weight_kg'' round1 d9 = Inr df'"
    by blast
  have late: "getcol df' m = getcol d4 m"
    using assms(2) s(5-10)
    by (auto simp: getcol_update_col_other getcol_impute_col_other)
  from assms(2) consider "m = ''City''" | "m = ''Region''" | "m = ''Country''" | "m = ''Affiliations''"
    by auto
  then show ?thesis
  proof cases
    case 1
    with getcol_update_col_same [OF s(1)] s(2-4) late show ?thesis
      by (auto simp: getcol_update_col_other)
  next
    case 2
    with getcol_update_col_same [OF s(2)] s(1,3,4) late show ?thesis
      by (auto simp: getcol_update_col_other)
  next
    case 3
    with getcol_update_col_same [OF s(3)] s(1,2,4) late show ?thesis
      by (auto simp: getcol_update_col_other)
  next
    case 4
    with getcol_update_col_same [OF s(4)] s(1,2,3) late show ?thesis
      by (auto simp: getcol_update_col_other)
  qed
qed

lemma fill_stage_birth_date:
  assumes "fill_stage df = Inr df'"
  shows "\<exists>c. getcol df ''birth_date'' = Inr c \<and> getcol df' ''birth_date'' = Inr (fillna sentinel c)"
proof -
  from fill_stage_steps [OF assms(1)] obtain d1 d2 d3 d4 d5 d6 d7 d8 d9 where s:
    "update_col ''City'' (fillna unknown) df = Inr d1"
    "update_col ''Region'' (fillna unknown) d1 = Inr d2"
    "update_col ''Country'' (fillna unknown) d2 = Inr d3"
    "update_col ''Affiliations'' (fillna unknown) d3 = Inr d4"
    "impute_col ''athlete_id'' d4 = Inr d5"
    "impute_col ''height_cm'' d5 = Inr d6"
    "impute_col ''weight_kg'' d6 = Inr d7"
    "update_col ''birth_date'' (fillna sentinel) d7 = Inr d8"
    "update_col ''height_cm'' round1 d8 = Inr d9"
    "update_col ''weight_kg'' round1 d9 = Inr df'"
    by blast
  have "getcol d7 ''birth_date'' = getcol df ''birth_date''"
    using s(1-7) by (simp add: getcol_update_col_other getcol_impute_col_other)
  moreover have "getcol df' ''birth_date'' = getcol d8 ''birth_date''"
    using s(9,10) by (simp add: getcol_update_col_other)
  ultimately show ?thesis using getcol_update_col_same [OF s(8)] by auto
qed

lemma fill_stage_other:
  assumes "fill_stage df = Inr df'"
    and "m \<notin> {''City'', ''Region'', ''Country'', ''Affiliations'', ''athlete_id'', ''height_cm'',
           ''weight_kg'', ''birth_date''}"
  shows "getcol df' m = getcol df m"
proof -
  from fill_stage_steps [OF assms(1)] obtain d1 d2 d3 d4 d5 d6 d7 d8 d9 where s:
    "update_col ''City'' (fillna unknown) df = Inr d1"
    "update_col ''Region'' (fillna unknown) d1 = Inr d2"
    "update_col ''Country'' (fillna unknown) d2 = Inr d3"
    "update_col ''Affiliations'' (fillna unknown) d3 = Inr d4"
    "impute_col ''athlete_id'' d4 = Inr d5"
    "impute_col ''height_cm'' d5 = Inr d6"
    "impute_col ''weight_kg'' d6 = Inr d7"
    "update_col ''birth_date'' (fillna sentinel) d7 = Inr d8"
    "update_col ''height_cm'' round1 d8 = Inr d9"
    "update_col ''weight_kg'' round1 d9 = Inr df'"
    by blast
  show ?thesis
    using assms(2) s by (simp add: getcol_update_col_other getcol_impute_col_other)
qed

lemma project_stage_Inr:
  assumes "project_stage df = Inr df'"
  shows "map fst df' = final_columns \<and>
         (\<forall>m. getcol df' m = (if m \<in> set final_columns then getcol df m else Inl (KeyError m)))"
  using assms getcol_select_columns [of df final_columns df'] names_select_columns [of df final_columns df']
  by (simp add: project_stage_def)

lemma clean_steps:
  assumes "clean df = Inr out"
  shows "\<exists>d1 d2 d3 d4 d5 d6 d7 d8.
           prune_stage (drop_duplicates df) = Inr d1 \<and> name_stage d1 = Inr d2 \<and>
           born_stage d2 = Inr d3 \<and> city_stage d3 = Inr d4 \<and> region_stage d4 = Inr d5 \<and>
           noc_stage d5 = Inr d6 \<and> measurements_stage d6 = Inr d7 \<and>
           project_stage d7 = Inr d8 \<and> fill_stage d8 = Inr out"
  using assms unfolding clean_def after_dedup_def
  by (simp add: apply_each_Cons_Inr apply_each_Nil_Inr del: apply_each.simps)

section \<open>Columns that pass through\<close>


lemma filter_mask_self: "filter_mask (map P xs) xs = filter P xs"
  by (induction xs) (auto simp: filter_mask_def)

lemma set_filter_mask: "set (filter_mask keep xs) \<subseteq> set xs"
  by (auto simp: filter_mask_def dest: set_zip_leftD)

lemma length_filter_mask:
  "length keep = length xs \<Longrightarrow> length (filter_mask keep xs) = length (filter id keep)"
proof (induction xs arbitrary: keep)
  case Nil then show ?case by (simp add: filter_mask_def)
next
  case (Cons x xs)
  then obtain b bs where "keep = b # bs" by (cases keep) auto
  with Cons show ?case by (auto simp: filter_mask_def)
qed

lemma clean_passive:
  assumes "clean df = Inr out" and "m \<in> {''Sex'', ''NOC'', ''Roles''}"
  shows "\<exists>noc. getcol (drop_duplicates df) ''NOC'' = Inr noc \<and>
           getcol out m = map_sum id (filter_mask (map notna noc)) (getcol (drop_duplicates df) m)"
proof -
  from clean_steps [OF assms(1)] obtain d1 d2 d3 d4 d5 d6 d7 d8 where s:
    "prune_stage (drop_duplicates df) = Inr d1" "name_stage d1 = Inr d2"
    "born_stage d2 = Inr d3" "city_stage d3 = Inr d4" "region_stage d4 = Inr d5"
    "noc_stage d5 = Inr d6" "measurements_stage d6 = Inr d7"
    "project_stage d7 = Inr d8" "fill_stage d8 = Inr out"
    by blast
  have early: "getcol d5 k = getcol (drop_duplicates df) k" if "k \<in> {''Sex'', ''NOC'', ''Roles''}" for k
  proof -
    have "getcol d1 k = getcol (drop_duplicates df) k"
      using prune_stage_Inr [OF s(1)] that by (auto simp: arranged_columns_def)
    moreover have "getcol d2 k = getcol d1 k"
      using name_stage_Inr [OF s(2)] that by auto
    moreover have "getcol d3 k = getcol d2 k"
      using born_stage_Inr [OF s(3)] that by auto
    moreover have "getcol d4 k = getcol d3 k"
      using city_stage_Inr [OF s(4)] that by auto
    moreover have "getcol d5 k = getcol d4 k"
      using region_stage_Inr [OF s(5)] that by auto
    ultimately show ?thesis by simp
  qed
  from noc_stage_Inr [OF s(6)] obtain noc where
    noc: "getcol d5 ''NOC'' = Inr noc" and d6: "d6 = filter_rows (map notna noc) d5"
    by blast
  have "getcol d7 m = getcol d6 m"
    using measurements_stage_Inr [OF s(7)] assms(2) by auto
  moreover have "getcol d8 m = getcol d7 m"
    using project_stage_Inr [OF s(8)] assms(2) by (auto simp: final_columns_def)
  moreover have "getcol out m = getcol d8 m"
    using fill_stage_other [OF s(9), of m] assms(2) by auto
  ultimately have "getcol out m = map_sum id (filter_mask (map notna noc)) (getcol d5 m)"
    by (simp add: d6 getcol_filter_rows)
  with noc early [of m] early [of "''NOC''"] assms(2) show ?thesis by auto
qed

lemma clean_athlete_id:
  assumes "clean df = Inr out"
  shows "\<exists>noc ids c. getcol (drop_duplicates df) ''NOC'' = Inr noc \<and>
           getcol (drop_duplicates df) ''athlete_id'' = Inr ids \<and>
           fit_transform (filter_mask (map notna noc) ids) = Inr c \<and>
           getcol out ''athlete_id'' = Inr c"
proof -
  from clean_steps [OF assms(1)] obtain d1 d2 d3 d4 d5 d6 d7 d8 where s:
    "prune_stage (drop_duplicates df) = Inr d1" "name_stage d1 = Inr d2"
    "born_stage d2 = Inr d3" "city_stage d3 = Inr d4" "region_stage d4 = Inr d5"
    "noc_stage d5 = Inr d6" "measurements_stage d6 = Inr d7"
    "project_stage d7 = Inr d8" "fill_stage d8 = Inr out"
    by blast
  have early: "getcol d5 k = getcol (drop_duplicates df) k" if "k \<in> {''athlete_id'', ''NOC''}" for k
  proof -
    have "getcol d1 k = getcol (drop_duplicates df) k"
      using prune_stage_Inr [OF s(1)] that by (auto simp: arranged_columns_def)
    moreover have "getcol d2 k = getcol d1 k"
      using name_stage_Inr [OF s(2)] that by auto
    moreover have "getcol d3 k = getcol d2 k"
      using born_stage_Inr [OF s(3)] that by auto
    moreover have "getcol d4 k = getcol d3 k"
      using city_stage_Inr [OF s(4)] that by auto
    moreover have "getcol d5 k = getcol d4 k"
      using region_stage_Inr [OF s(5)] that by auto
    ultimately show ?thesis by simp
  qed
  from noc_stage_Inr [OF s(6)] obtain noc where
    noc: "getcol d5 ''NOC'' = Inr noc" and d6: "d6 = filter_rows (map notna noc) d5"
    by blast
  have "getcol d7 ''athlete_id'' = getcol d6 ''athlete_id''"
    using measurements_stage_Inr [OF s(7)] by auto
  moreover have "getcol d8 ''athlete_id'' = getcol d7 ''athlete_id''"
    using project_stage_Inr [OF s(8)] by (auto simp: final_columns_def)
  ultimately have d8: "getcol d8 ''athlete_id'' =
      map_sum id (filter_mask (map notna noc)) (getcol (drop_duplicates df) ''athlete_id'')"
    using early [of "''athlete_id''"] by (simp add: d6 getcol_filter_rows)
  from fill_stage_steps [OF s(9)] obtain e1 e2 e3 e4 e5 e6 e7 e8 e9 where f:
    "update_col ''City'' (fillna unknown) d8 = Inr e1"
    "update_col ''Region'' (fillna unknown) e1 = Inr e2"
    "update_col ''Country'' (fillna unknown) e2 = Inr e3"
    "update_col ''Affiliations'' (fillna unknown) e3 = Inr e4"
    "impute_col ''athlete_id'' e4 = Inr e5"
    "impute_col ''height_cm'' e5 = Inr e6"
    "impute_col ''weight_kg'' e6 = Inr e7"
    "update_col ''birth_date'' (fillna sentinel) e7 = Inr e8"
    "update_col ''height_cm'' round1 e8 = Inr e9"
    "update_col ''weight_kg'' round1 e9 = Inr out"
    by blast
  have e4: "getcol e4 ''athlete_id'' = getcol d8 ''athlete_id''"
    using f(1-4) by (simp add: getcol_update_col_other)
  have out: "getcol out ''athlete_id'' = getcol e5 ''athlete_id''"
    using f(6-10) by (simp add: getcol_update_col_other getcol_impute_col_other)
  from impute_col_Inr [OF f(5)] obtain c c' where
    c: "getcol e4 ''athlete_id'' = Inr c" "fit_transform c = Inr c'" "e5 = setcol e4 ''athlete_id'' c'"
    by blast
  from c(1) e4 d8 obtain ids where ids: "getcol (drop_duplicates df) ''athlete_id'' = Inr ids"
    "c = filter_mask (map notna noc) ids"
    by (cases "getcol (drop_duplicates df) ''athlete_id''") auto
  show ?thesis
    using noc early [of "''NOC''"] ids c(2,3) out by (auto simp: getcol_setcol)
qed

lemma getcol_length:
  assumes "rectangular df" "getcol df m = Inr c"
  shows "length c = nrows df"
proof -
  from assms(2) have "map_of df m = Some c" by (auto simp: getcol_def split: option.splits)
  then have "(m, c) \<in> set df" by (rule map_of_SomeD)
  from rectangular_length [OF assms(1) this] show ?thesis by simp
qed

lemma getcol_first:
  assumes "map fst df = n # ns" "getcol df n = Inr c"
  shows "nrows df = length c"
proof -
  from assms(1) obtain p ps where "df = p # ps" "fst p = n" by (cases df) auto
  with assms(2) show ?thesis by (cases p) (auto simp: getcol_def nrows_def)
qed

lemma length_fit_transform: "fit_transform c = Inr c' \<Longrightarrow> length c' = length c"
  by (auto dest!: fit_transform_Inr)

section \<open>Strings without spaces\<close>


lemma str_replace_char_del: "str_replace [a] [] s = filter (\<lambda>c. c \<noteq> a) s"
  by (induction s) auto

lemma set_str_replace_del: "set (str_replace old [] s) \<subseteq> set s"
proof (induction old "[] :: pystr" s rule: str_replace.induct)
  case (1 old) then show ?case by simp
next
  case (2 old c cs)
  show ?case
  proof (cases "old \<noteq> [] \<and> prefix old (c # cs)")
    case True
    with 2 have "set (str_replace old [] (drop (length old) (c # cs))) \<subseteq> set (drop (length old) (c # cs))"
      by simp
    also have "\<dots> \<subseteq> set (c # cs)" by (rule set_drop_subset)
    finally show ?thesis using True by simp
  next
    case False
    with 2 show ?thesis by auto
  qed
qed

lemma set_split_from: "p \<in> set (split_from sep acc s) \<Longrightarrow> set p \<subseteq> set acc \<union> set s"
proof (induction sep acc s rule: split_from.induct)
  case (1 sep acc) then show ?case by simp
next
  case (2 sep acc c cs)
  show ?case
  proof (cases "sep \<noteq> [] \<and> prefix sep (c # cs)")
    case True
    with 2(3) consider "p = rev acc" | "p \<in> set (split_from sep [] (drop (length sep) (c # cs)))"
      by auto
    then show ?thesis
    proof cases
      case 1 then show ?thesis by auto
    next
      case 2
      with "2.IH"(1) True have "set p \<subseteq> set (drop (length sep) (c # cs))" by simp
      also have "\<dots> \<subseteq> set (c # cs)" by (rule set_drop_subset)
      finally show ?thesis by auto
    qed
  next
    case False
    with 2(3) have "p \<in> set (split_from sep (c # acc) cs)" by auto
    with "2.IH"(2) False show ?thesis by auto
  qed
qed

lemma set_str_split: "p \<in> set (str_split sep s) \<Longrightarrow> set p \<subseteq> set s"
  using set_split_from [of p sep "[]" s] by (simp add: str_split_def)

lemma py_space: "py '' '' = [32]"
  by (simp add: py_def)

lemma spaceless_remove_spaces: "spaceless (remove_spaces col)"
  by (auto simp: spaceless_def remove_spaces_def str_map_def py_space str_replace_char_del
      split: cell.splits)

lemma length_str_split_expand:
  "k < length (str_split_expand sep col) \<Longrightarrow> length (str_split_expand sep col ! k) = length col"
  by (simp add: str_split_expand_def Let_def)

lemma nth_str_split_expand:
  "k < length (str_split_expand sep col) \<Longrightarrow> i < length col \<Longrightarrow>
   str_split_expand sep col ! k ! i = part_at k (split_parts sep (col ! i))"
  by (simp add: str_split_expand_def Let_def)

lemma set_str_split_expand:
  assumes "k < length (str_split_expand sep col)" "Str p \<in> set (str_split_expand sep col ! k)"
  shows "\<exists>s. Str s \<in> set col \<and> p \<in> set (str_split sep s)"
proof -
  from assms obtain c where c: "c \<in> set col" "Str p = part_at k (split_parts sep c)"
    by (auto simp: str_split_expand_def Let_def)
  show ?thesis
  proof (cases c)
    case (Str s)
    with c(2) have "p \<in> set (str_split sep s)"
      by (auto simp: part_at_def split_parts_def split: if_splits)
    with c(1) Str show ?thesis by blast
  qed (use c(2) in \<open>simp_all add: part_at_def split_parts_def\<close>)
qed

lemma spaceless_str_split_expand:
  assumes "spaceless col" "k < length (str_split_expand sep col)"
  shows "spaceless (str_split_expand sep col ! k)"
  unfolding spaceless_def
proof (intro allI impI)
  fix p assume "Str p \<in> set (str_split_expand sep col ! k)"
  from set_str_split_expand [OF assms(2) this] obtain s where
    "Str s \<in> set col" "p \<in> set (str_split sep s)" by blast
  with assms(1) set_str_split [of p sep s] show "32 \<notin> set p"
    by (auto simp: spaceless_def)
qed

lemma spaceless_str_replace_del:
  "spaceless col \<Longrightarrow> spaceless (str_map (str_replace old []) col)"
  using set_str_replace_del
  by (fastforce simp: spaceless_def str_map_def split: cell.splits)

lemma spaceless_filter_mask: "spaceless col \<Longrightarrow> spaceless (filter_mask keep col)"
  using set_filter_mask [of keep col] by (auto simp: spaceless_def)

lemma spaceless_fillna_unknown: "spaceless col \<Longrightarrow> spaceless (fillna unknown col)"
  by (auto simp: spaceless_def fillna_def unknown_def py_def)

section \<open>The used name\<close>








section \<open>The round-trip example\<close>

lemma length_columns [simp]:
  "length (to_datetime c) = length c" "length (remove_spaces c) = length c"
  "length (strip_column c) = length c" "length (replace_regex d c) = length c"
  "length (str_map f c) = length c" "length (to_numeric c) = length c"
  "length (fillna v c) = length c" "length (round1 c) = length c"
  by (simp_all add: to_datetime_def remove_spaces_def strip_column_def replace_regex_def
      str_map_def replace_value_def to_numeric_def fillna_def round1_def)

lemma paris_parts:
  "part_at 0 (split_parts (py ''in'') (Str born_paris)) = Str (py ''12 January 1980 '')"
  "part_at 1 (split_parts (py ''in'') (Str born_paris)) =
     Str (py '' Paris, France ('' @ [206] @ py ''le-de-France)'')"
  by (simp_all add: part_at_def split_parts_def str_split_def py_def born_paris_def)

lemma paris_date:
  assumes "i < length c" "c ! i = Str (py ''12 January 1980 '')"
  shows "to_datetime (remove_spaces (strip_column (replace_regex months c))) ! i = Date 1980 1 12"
  using assms
  by (simp add: to_datetime_def remove_spaces_def strip_column_def replace_regex_def
      str_map_def replace_value_def months_def py_def str_strip_def isspace_def strptime_dmy_def
      str_split_def year_re_def isdigit_def digits_val_def days_in_month_def leap_year_def
      in_timestamp_range_def)

lemma paris_location:
  assumes "i < length c" "c ! i = Str (py '' Paris, France ('' @ [206] @ py ''le-de-France)'')"
  shows "remove_spaces (strip_column c) ! i = Str (py ''Paris,France('' @ [206] @ py ''le-de-France)'')"
  using assms
  by (simp add: remove_spaces_def strip_column_def str_map_def replace_value_def py_def
      str_strip_def isspace_def)

lemma paris_city:
  "part_at 0 (split_parts (py '','') (Str (py ''Paris,France('' @ [206] @ py ''le-de-France)''))) =
     Str (py ''Paris'')"
  "part_at 1 (split_parts (py '','') (Str (py ''Paris,France('' @ [206] @ py ''le-de-France)''))) =
     Str (py ''France('' @ [206] @ py ''le-de-France)'')"
  by (simp_all add: part_at_def split_parts_def str_split_def py_def)

lemma paris_region:
  "part_at 0 (split_parts (py ''('') (Str (py ''France('' @ [206] @ py ''le-de-France)''))) =
     Str (py ''France'')"
  "part_at 1 (split_parts (py ''('') (Str (py ''France('' @ [206] @ py ''le-de-France)''))) =
     Str ([206] @ py ''le-de-France)'')"
  by (simp_all add: part_at_def split_parts_def str_split_def py_def)

lemma paris_country:
  assumes "i < length c" "c ! i = Str ([206] @ py ''le-de-France)'')"
  shows "str_map (str_replace (py '')'') []) c ! i = Str ile_de_france"
  using assms by (simp add: str_map_def py_def ile_de_france_def)

lemma parse_round_trip:
  assumes "apply_each [born_stage, city_stage, region_stage] df = Inr df'"
    and "getcol df ''Born'' = Inr born" and "i < length born" and "born ! i = Str born_paris"
  shows "\<exists>bd city region country.
           getcol df' ''birth_date'' = Inr bd \<and> bd ! i = Date 1980 1 12 \<and>
           getcol df' ''City'' = Inr city \<and> city ! i = Str (py ''Paris'') \<and>
           getcol df' ''Region'' = Inr region \<and> region ! i = Str (py ''France'') \<and>
           getcol df' ''Country'' = Inr country \<and> country ! i = Str ile_de_france \<and>
           length bd = length born \<and> length city = length born \<and>
           length region = length born \<and> length country = length born"
proof -
  from assms(1) obtain d3 d4 where s:
    "born_stage df = Inr d3" "city_stage d3 = Inr d4" "region_stage d4 = Inr df'"
    by (auto split: sum.splits)
  define nd where "nd = str_split_expand (py ''in'') born"
  from born_stage_Inr [OF s(1)] assms(2) have l1: "1 < length nd" and
    g3: "\<And>m. getcol d3 m =
              (if m = ''birth_location'' then Inr (remove_spaces (strip_column (nd ! 1)))
               else if m = ''birth_date''
               then Inr (to_datetime (remove_spaces (strip_column (replace_regex months (nd ! 0)))))
               else getcol df m)"
    by (auto simp: nd_def)
  from l1 have l0: "0 < length nd" by linarith
  have len0: "length (nd ! 0) = length born" and len1: "length (nd ! 1) = length born"
    using l0 l1 by (simp_all add: nd_def length_str_split_expand)
  have nd0: "nd ! 0 ! i = Str (py ''12 January 1980 '')"
    using nth_str_split_expand [OF l0 [unfolded nd_def] assms(3)] assms(4) paris_parts(1)
    by (simp add: nd_def)
  have nd1: "nd ! 1 ! i = Str (py '' Paris, France ('' @ [206] @ py ''le-de-France)'')"
    using nth_str_split_expand [OF l1 [unfolded nd_def] assms(3)] assms(4) paris_parts(2)
    by (simp add: nd_def)
  define bd where "bd = to_datetime (remove_spaces (strip_column (replace_regex months (nd ! 0))))"
  define loc where "loc = remove_spaces (strip_column (nd ! 1))"
  have bd: "bd ! i = Date 1980 1 12"
    unfolding bd_def using assms(3) len0 nd0 by (intro paris_date) simp_all
  have loc: "loc ! i = Str (py ''Paris,France('' @ [206] @ py ''le-de-France)'')" and
    lloc: "i < length loc"
    unfolding loc_def using assms(3) len1 nd1 by (simp_all add: paris_location)
  define nd2 where "nd2 = str_split_expand (py '','') loc"
  from city_stage_Inr [OF s(2)] g3 [of "''birth_location''"] have l2: "1 < length nd2" and
    g4: "\<And>m. getcol d4 m =
              (if m = ''Region_country'' then Inr (nd2 ! 1)
               else if m = ''City'' then Inr (nd2 ! 0) else getcol d3 m)"
    by (auto simp: nd2_def loc_def)
  from l2 have l20: "0 < length nd2" by linarith
  have city: "nd2 ! 0 ! i = Str (py ''Paris'')"
    using nth_str_split_expand [OF l20 [unfolded nd2_def] lloc] loc paris_city(1)
    by (simp add: nd2_def)
  have rc: "nd2 ! 1 ! i = Str (py ''France('' @ [206] @ py ''le-de-France)'')" and
    lrc: "i < length (nd2 ! 1)"
    using nth_str_split_expand [OF l2 [unfolded nd2_def] lloc] loc paris_city(2) l2 lloc
    by (simp_all add: nd2_def length_str_split_expand)
  define nd3 where "nd3 = str_split_expand (py ''('') (nd2 ! 1)"
  from region_stage_Inr [OF s(3)] g4 [of "''Region_country''"] have l3: "1 < length nd3" and
    g5: "\<And>m. getcol df' m =
              (if m \<in> {''Born'', ''birth_location'', ''Region_country'', ''Died''} then Inl (KeyError m)
               else if m = ''Country'' then Inr (str_map (str_replace (py '')'') []) (nd3 ! 1))
               else if m = ''Region'' then Inr (nd3 ! 0)
               else getcol d4 m)"
    by (auto simp: nd3_def)
  from l3 have l30: "0 < length nd3" by linarith
  have region: "nd3 ! 0 ! i = Str (py ''France'')"
    using nth_str_split_expand [OF l30 [unfolded nd3_def] lrc] rc paris_region(1)
    by (simp add: nd3_def)
  have "nd3 ! 1 ! i = Str ([206] @ py ''le-de-France)'')" and "i < length (nd3 ! 1)"
    using nth_str_split_expand [OF l3 [unfolded nd3_def] lrc] rc paris_region(2) l3 lrc
    by (simp_all add: nd3_def length_str_split_expand)
  then have country: "str_map (str_replace (py '')'') []) (nd3 ! 1) ! i = Str ile_de_france"
    by (intro paris_country) simp_all
  have "getcol df' ''birth_date'' = Inr bd"
    using g5 [of "''birth_date''"] g4 [of "''birth_date''"] g3 [of "''birth_date''"]
    by (simp add: bd_def)
  moreover have "getcol df' ''City'' = Inr (nd2 ! 0)"
    using g5 [of "''City''"] g4 [of "''City''"] by simp
  moreover have "getcol df' ''Region'' = Inr (nd3 ! 0)"
    using g5 [of "''Region''"] by simp
  moreover have "getcol df' ''Country'' = Inr (str_map (str_replace (py '')'') []) (nd3 ! 1))"
    using g5 [of "''Country''"] by simp
  moreover have "length bd = length born" "length (nd2 ! 0) = length born"
    "length (nd3 ! 0) = length born" "length (str_map (str_replace (py '')'') []) (nd3 ! 1)) = length born"
    using len0 len1 l20 l2 l30 l3
    by (simp_all add: bd_def nd2_def nd3_def loc_def length_str_split_expand)
  ultimately show ?thesis using bd city region country by blast
qed


lemma nth_filter_mask:
  assumes "length keep = length xs" "i < length xs" "keep ! i"
  shows "length (filter id (take i keep)) < length (filter_mask keep xs) \<and>
         filter_mask keep xs ! length (filter id (take i keep)) = xs ! i"
proof -
  have xs: "xs = take i xs @ xs ! i # drop (Suc i) xs"
    using assms(2) by (simp add: id_take_nth_drop)
  have keep: "keep = take i keep @ keep ! i # drop (Suc i) keep"
    using assms(1,2) by (simp add: id_take_nth_drop)
  have "zip xs keep = zip (take i xs) (take i keep) @ (xs ! i, keep ! i) # zip (drop (Suc i) xs) (drop (Suc i) keep)"
    using assms(1,2) by (subst xs, subst keep) (simp add: zip_append)
  then have "filter_mask keep xs =
      filter_mask (take i keep) (take i xs) @ xs ! i # filter_mask (drop (Suc i) keep) (drop (Suc i) xs)"
    using assms(3) by (simp add: filter_mask_def)
  moreover have "length (filter_mask (take i keep) (take i xs)) = length (filter id (take i keep))"
    using assms(1) by (intro length_filter_mask) simp
  ultimately show ?thesis by (simp add: nth_append)
qed

section \<open>The loop over the measurements\<close>

lemma loop_body_stored:
  assumes "loop_body row i hw = Inr hw'"
    and "fst hw ! i = NaN" and "snd hw ! i = NaN"
  shows "1 < length row \<and>
         hw' = ((fst hw)[i := fst (stored (row ! 0) (row ! 1))],
                (snd hw)[i := snd (stored (row ! 0) (row ! 1))])"
proof -
  from assms(1) have l: "1 < length row"
    by (auto simp: loop_body_def row_get_def split: if_splits)
  have id: "(fst hw)[i := NaN] = fst hw" "(snd hw)[i := NaN] = snd hw"
    using assms(2,3) by (metis list_update_id)+
  show ?thesis
  proof (cases "row ! 1")
    case NaN
    with assms(1) l id show ?thesis
      by (cases "row ! 0")
         (auto simp: loop_body_def row_get_def isna_def notna_def cell_contains_def stored_def
            store_height_def store_weight_def split: if_splits)
  next
    case (Str s1)
    with assms(1) l id show ?thesis
      by (cases "row ! 0")
         (auto simp: loop_body_def row_get_def isna_def notna_def cell_contains_def stored_def
            store_height_def store_weight_def split: if_splits)
  next
    case (Num q)
    with assms(1) l show ?thesis
      by (cases "row ! 0")
         (auto simp: loop_body_def row_get_def isna_def notna_def store_height_def store_weight_def
            split: if_splits)
  next
    case (Date y m d)
    with assms(1) l show ?thesis
      by (cases "row ! 0")
         (auto simp: loop_body_def row_get_def isna_def notna_def store_height_def store_weight_def
            split: if_splits)
  qed
qed

lemma iterrows_loop_stored:
  assumes "iterrows_loop nd is hw = Inr hw'" and "distinct is"
    and "\<forall>i\<in>set is. i < length (fst hw) \<and> i < length (snd hw) \<and> fst hw ! i = NaN \<and> snd hw ! i = NaN"
  shows "length (fst hw') = length (fst hw) \<and> length (snd hw') = length (snd hw) \<and>
         (\<forall>i\<in>set is. 1 < length (row_at nd i) \<and>
            fst hw' ! i = fst (stored (row_at nd i ! 0) (row_at nd i ! 1)) \<and>
            snd hw' ! i = snd (stored (row_at nd i ! 0) (row_at nd i ! 1))) \<and>
         (\<forall>j. j \<notin> set is \<longrightarrow> fst hw' ! j = fst hw ! j \<and> snd hw' ! j = snd hw ! j)"
  using assms
proof (induction "is" arbitrary: hw)
  case Nil
  then show ?case by simp
next
  case (Cons i "is")
  from Cons.prems(1) obtain hw1 where
    b: "loop_body (row_at nd i) i hw = Inr hw1" and r: "iterrows_loop nd is hw1 = Inr hw'"
    by (auto split: sum.splits)
  from Cons.prems(3) have i: "i < length (fst hw)" "i < length (snd hw)"
    "fst hw ! i = NaN" "snd hw ! i = NaN" by auto
  from loop_body_stored [OF b i(3,4)] have l: "1 < length (row_at nd i)" and
    hw1: "hw1 = ((fst hw)[i := fst (stored (row_at nd i ! 0) (row_at nd i ! 1))],
                 (snd hw)[i := snd (stored (row_at nd i ! 0) (row_at nd i ! 1))])"
    by simp_all
  from Cons.prems(2) have d: "distinct is" and ni: "i \<notin> set is" by simp_all
  have pre: "\<forall>k\<in>set is. k < length (fst hw1) \<and> k < length (snd hw1) \<and>
      fst hw1 ! k = NaN \<and> snd hw1 ! k = NaN"
    using Cons.prems(3) ni by (auto simp: hw1 nth_list_update)
  from Cons.IH [OF r d pre] have ih:
    "length (fst hw') = length (fst hw1)" "length (snd hw') = length (snd hw1)"
    "\<forall>k\<in>set is. 1 < length (row_at nd k) \<and>
        fst hw' ! k = fst (stored (row_at nd k ! 0) (row_at nd k ! 1)) \<and>
        snd hw' ! k = snd (stored (row_at nd k ! 0) (row_at nd k ! 1))"
    "\<forall>j. j \<notin> set is \<longrightarrow> fst hw' ! j = fst hw1 ! j \<and> snd hw' ! j = snd hw1 ! j"
    by simp_all
  have here: "fst hw' ! i = fst (stored (row_at nd i ! 0) (row_at nd i ! 1))"
    "snd hw' ! i = snd (stored (row_at nd i ! 0) (row_at nd i ! 1))"
    using ih(4) ni i(1,2) by (simp_all add: hw1)
  have other: "fst hw' ! j = fst hw ! j \<and> snd hw' ! j = snd hw ! j" if "j \<notin> set (i # is)" for j
    using ih(4) that by (simp add: hw1)
  show ?case using ih(1,2,3) l here other by (simp add: hw1)
qed

lemma str_split_nonempty: "split_from sep acc s \<noteq> []"
  by (induction sep acc s rule: split_from.induct) auto

lemma length_str_split: "0 < length (str_split sep s)"
  by (simp add: str_split_def str_split_nonempty)

lemma nth_to_numeric:
  "i < length c \<Longrightarrow>
   to_numeric c ! i = (case c ! i of Str s \<Rightarrow> numeric_cell s | Num q \<Rightarrow> Num q | _ \<Rightarrow> NaN)"
  by (simp add: to_numeric_def)

lemma stripped_parts:
  assumes "k < length (str_split_expand sep col)" "i < length col"
  shows "row_at (map (str_map str_strip) (str_split_expand sep col)) i ! k =
         (case col ! i of
            Str s \<Rightarrow> if k < length (str_split sep s) then Str (str_strip (str_split sep s ! k)) else NaN
          | _ \<Rightarrow> NaN)"
  using assms nth_str_split_expand [OF assms] length_str_split_expand [OF assms(1)]
  by (simp add: row_at_def str_map_def part_at_def split_parts_def split: cell.splits)

section \<open>A column without any separator\<close>

text \<open>When no value of a column holds the separator, the split has the single column 0,
  and the Born and the Measurements stage raise on any such table that has a row.\<close>

lemma split_from_without:
  "\<not> str_contains sep s \<Longrightarrow> split_from sep acc s = [rev acc @ s]"
  by (induction s arbitrary: acc) auto

lemma parts_len_without:
  assumes "\<forall>s. c = Str s \<longrightarrow> \<not> str_contains sep s"
  shows "parts_len (split_parts sep c) = 1"
  using assms
  by (cases c) (simp_all add: parts_len_def split_parts_def str_split_def split_from_without)

lemma foldr_max_ones:
  "xs \<noteq> [] \<Longrightarrow> \<forall>x\<in>set xs. x = (1::nat) \<Longrightarrow> foldr max xs 0 = 1"
proof (induction xs)
  case Nil then show ?case by simp
next
  case (Cons x xs)
  then show ?case by (cases xs) auto
qed

lemma one_column_without:
  assumes "col \<noteq> []" and "\<forall>c\<in>set col. \<forall>s. c = Str s \<longrightarrow> \<not> str_contains sep s"
  shows "length (str_split_expand sep col) = 1"
proof -
  have "foldr max (map parts_len (map (split_parts sep) col)) 0 = 1"
    using assms by (intro foldr_max_ones) (auto simp: parts_len_without)
  then show ?thesis by (simp add: str_split_expand_def Let_def)
qed

lemma born_stage_without_in:
  assumes "getcol df ''Born'' = Inr born" and "born \<noteq> []"
    and "\<forall>c\<in>set born. \<forall>s. c = Str s \<longrightarrow> \<not> str_contains (py ''in'') s"
  shows "born_stage df = Inl (KeyError_int 1)"
proof -
  have l: "length (str_split_expand (py ''in'') born) = 1"
    by (rule one_column_without [OF assms(2,3)])
  then have "str_split_expand (py ''in'') born \<noteq> []" by auto
  with assms(1) l show ?thesis
    by (simp add: born_stage_def Let_def icol_def)
qed

lemma measurements_stage_without_slash:
  assumes "getcol df ''Measurements'' = Inr meas" and "meas \<noteq> []"
    and "\<forall>c\<in>set meas. \<forall>s. c = Str s \<longrightarrow> \<not> str_contains (py ''/'') s"
  shows "measurements_stage df = Inl (KeyError_int 1)"
proof -
  from assms(2) have "[0..<length meas] = 0 # [1..<length meas]"
    by (simp add: upt_rec)
  moreover have "loop_body (row_at (map (str_map str_strip) (str_split_expand (py ''/'') meas)) 0) 0 hw =
      Inl (KeyError_int 1)" for hw
    using one_column_without [OF assms(2,3)]
    by (simp add: loop_body_def row_get_def row_at_def)
  ultimately show ?thesis
    using assms(1) by (simp add: measurements_stage_def Let_def)
qed

section \<open>The sample table\<close>

lemma clean_table_sample: "clean table_sample = Inr sample_out"
  by (simp add: model_defs table_sample_def sample_out_def)

lemma rectangular_table_sample: "rectangular table_sample"
  by (simp add: rectangular_def list_all_iff table_sample_def frame_of_rows_def raw_columns_def
      nrows_def upt_rec)

section \<open>Totality of the two parsers\<close>

text \<open>
  C1. The specification has the Born and the Measurements stage never raise, whatever the
  text, also on a table in which no \<^verbatim>\<open>Born\<close> value contains \<^verbatim>\<open>in\<close> and on a table in
  which no \<^verbatim>\<open>Measurements\<close> value contains a slash. The notebook raises on both: the
  split gives a frame with the single column 0, and \<^verbatim>\<open>new_data1[1]\<close>, respectively
  \<^verbatim>\<open>row[1]\<close>, is a \<^verbatim>\<open>KeyError\<close>. The run of the whole notebook on a one-row table of
  each kind:
\<close>

theorem C1_parsers_raise:
  "clean table_no_in = Inl (KeyError_int 1) \<and> clean table_no_slash = Inl (KeyError_int 1)"
  by (simp add: model_defs table_no_in_def table_no_slash_def)

section \<open>The three splits\<close>

text \<open>
  C2. The specification has each split cut at the first occurrence of its separator only,
  into at most two parts, so that the second part carries the whole remainder. The
  notebook cuts at
  every occurrence and keeps the parts 0 and 1: the birth text of an athlete from Turin
  has three parts, its location is \<^verbatim>\<open>Tur\<close>, and the region and the country are lost.
\<close>

theorem C2_split_at_every_occurrence:
  "str_split (py ''in'') (py ''1 June 2001 in Turin, Piemonte (ITA)'') =
     [py ''1 June 2001 '', py '' Tur'', py '', Piemonte (ITA)''] \<and>
   clean table_turin = Inr (frame_of_rows final_columns
     [ [Num 1, Str (py ''Jean Dupont''), Str (py ''Male''), Date 1980 1 12, Str (py ''Paris''),
       Str (py ''France''), Str ile_de_france, Str (py ''France''), Num 178, Num 75,
       roles_text, unknown],
      [Num 2, Str (py ''Lia Rossi''), Str (py ''Male''), Date 2001 6 1, Str (py ''Tur''),
       unknown, unknown, Str (py ''Italy''), Num 160, Num 50, roles_text, unknown] ])"
  by (simp add: model_defs table_turin_def)

section \<open>The round trip of a well-formed birth text\<close>

text \<open>
  C3. In a run of the notebook, a row of the deduplicated table whose \<^verbatim>\<open>Born\<close> is
  \<^verbatim>\<open>12 January 1980 in Paris, France (\<close>U+00CE\<^verbatim>\<open>le-de-France)\<close> and whose \<^verbatim>\<open>NOC\<close> is there
  comes out with the birth date 1980-01-12, the city \<^verbatim>\<open>Paris\<close>, the region \<^verbatim>\<open>France\<close> and
  the country U+00CE\<^verbatim>\<open>le-de-France\<close>, whatever the other rows hold. The row \<open>i\<close> of the
  deduplicated table is the row of the output that has as many rows before it as there
  are rows with a \<^verbatim>\<open>NOC\<close> before \<open>i\<close>.
\<close>

theorem C3_round_trip:
  assumes "clean df = Inr out"
    and "getcol (drop_duplicates df) ''Born'' = Inr born"
    and "getcol (drop_duplicates df) ''NOC'' = Inr noc"
    and "length noc = length born"
    and "i < length born" and "born ! i = Str born_paris" and "noc ! i \<noteq> NaN"
  shows "\<exists>bd city region country.
           getcol out ''birth_date'' = Inr bd \<and>
           bd ! length (filter notna (take i noc)) = Date 1980 1 12 \<and>
           getcol out ''City'' = Inr city \<and>
           city ! length (filter notna (take i noc)) = Str (py ''Paris'') \<and>
           getcol out ''Region'' = Inr region \<and>
           region ! length (filter notna (take i noc)) = Str (py ''France'') \<and>
           getcol out ''Country'' = Inr country \<and>
           country ! length (filter notna (take i noc)) = Str ile_de_france"
proof -
  from clean_steps [OF assms(1)] obtain d1 d2 d3 d4 d5 d6 d7 d8 where s:
    "prune_stage (drop_duplicates df) = Inr d1" "name_stage d1 = Inr d2"
    "born_stage d2 = Inr d3" "city_stage d3 = Inr d4" "region_stage d4 = Inr d5"
    "noc_stage d5 = Inr d6" "measurements_stage d6 = Inr d7"
    "project_stage d7 = Inr d8" "fill_stage d8 = Inr out"
    by blast
  have early: "getcol d2 k = getcol (drop_duplicates df) k" if "k \<in> {''Born'', ''NOC''}" for k
  proof -
    have "getcol d1 k = getcol (drop_duplicates df) k"
      using prune_stage_Inr [OF s(1)] that by (auto simp: arranged_columns_def)
    moreover have "getcol d2 k = getcol d1 k"
      using name_stage_Inr [OF s(2)] that by auto
    ultimately show ?thesis by simp
  qed
  have parse: "apply_each [born_stage, city_stage, region_stage] d2 = Inr d5"
    using s(3-5) by simp
  have b2: "getcol d2 ''Born'' = Inr born"
    using early [of "''Born''"] assms(2) by simp
  from parse_round_trip [OF parse b2 assms(5,6)] obtain bd city region country where p:
    "getcol d5 ''birth_date'' = Inr bd" "bd ! i = Date 1980 1 12"
    "getcol d5 ''City'' = Inr city" "city ! i = Str (py ''Paris'')"
    "getcol d5 ''Region'' = Inr region" "region ! i = Str (py ''France'')"
    "getcol d5 ''Country'' = Inr country" "country ! i = Str ile_de_france"
    "length bd = length born" "length city = length born"
    "length region = length born" "length country = length born"
    by blast
  have noc5: "getcol d5 ''NOC'' = Inr noc"
  proof -
    have "getcol d3 ''NOC'' = getcol d2 ''NOC''"
      using born_stage_Inr [OF s(3)] by auto
    moreover have "getcol d4 ''NOC'' = getcol d3 ''NOC''"
      using city_stage_Inr [OF s(4)] by auto
    moreover have "getcol d5 ''NOC'' = getcol d4 ''NOC''"
      using region_stage_Inr [OF s(5)] by auto
    ultimately show ?thesis using early [of "''NOC''"] assms(3) by simp
  qed
  define keep where "keep = map notna noc"
  define j where "j = length (filter notna (take i noc))"
  have d6: "d6 = filter_rows keep d5"
    using noc_stage_Inr [OF s(6)] noc5 by (auto simp: keep_def)
  have lk: "length keep = length born" and ki: "keep ! i"
    using assms(4,5,7) by (simp_all add: keep_def notna_def)
  have j: "j = length (filter id (take i keep))"
    by (simp add: j_def keep_def take_map filter_map comp_def)
  have at: "j < length (filter_mask keep c) \<and> filter_mask keep c ! j = c ! i"
    if "length c = length born" for c
    unfolding j using that lk assms(5) ki by (intro nth_filter_mask) simp_all
  have late: "getcol d8 m = map_sum id (filter_mask keep) (getcol d5 m)"
    if "m \<in> {''birth_date'', ''City'', ''Region'', ''Country''}" for m
  proof -
    have "getcol d7 m = getcol d6 m"
      using measurements_stage_Inr [OF s(7)] that by auto
    moreover have "getcol d8 m = getcol d7 m"
      using project_stage_Inr [OF s(8)] that by (auto simp: final_columns_def)
    ultimately show ?thesis by (simp add: d6 getcol_filter_rows)
  qed
  have place: "getcol out m = Inr (fillna unknown (filter_mask keep c)) \<and>
      fillna unknown (filter_mask keep c) ! j = Str v"
    if "m \<in> {''City'', ''Region'', ''Country''}" "getcol d5 m = Inr c" "c ! i = Str v"
      "length c = length born" for m c v
  proof -
    from that(1) have "m \<in> {''City'', ''Region'', ''Country'', ''Affiliations''}" by auto
    from fill_stage_text [OF s(9) this] late [of m] that(1,2)
    have "getcol out m = Inr (fillna unknown (filter_mask keep c))" by auto
    moreover have "fillna unknown (filter_mask keep c) ! j = Str v"
      using at [OF that(4)] that(3) by (simp add: fillna_def isna_def)
    ultimately show ?thesis by simp
  qed
  have date: "getcol out ''birth_date'' = Inr (fillna sentinel (filter_mask keep bd)) \<and>
      fillna sentinel (filter_mask keep bd) ! j = Date 1980 1 12"
  proof -
    from fill_stage_birth_date [OF s(9)] late [of "''birth_date''"] p(1)
    have "getcol out ''birth_date'' = Inr (fillna sentinel (filter_mask keep bd))" by auto
    moreover have "fillna sentinel (filter_mask keep bd) ! j = Date 1980 1 12"
      using at [OF p(9)] p(2) by (simp add: fillna_def isna_def)
    ultimately show ?thesis by simp
  qed
  from date place [OF _ p(3,4,10)] place [OF _ p(5,6,11)] place [OF _ p(7,8,12)]
  show ?thesis unfolding j_def by blast
qed

theorem C3_round_trip_witness:
  "clean table_sample = Inr sample_out \<and>
   getcol (drop_duplicates table_sample) ''Born'' = Inr sample_born \<and>
   getcol (drop_duplicates table_sample) ''NOC'' = Inr sample_noc \<and>
   length sample_noc = length sample_born \<and>
   0 < length sample_born \<and> sample_born ! 0 = Str born_paris \<and> sample_noc ! 0 \<noteq> NaN \<and>
   (\<exists>bd city region country.
      getcol sample_out ''birth_date'' = Inr bd \<and>
      bd ! length (filter notna (take 0 sample_noc)) = Date 1980 1 12 \<and>
      getcol sample_out ''City'' = Inr city \<and>
      city ! length (filter notna (take 0 sample_noc)) = Str (py ''Paris'') \<and>
      getcol sample_out ''Region'' = Inr region \<and>
      region ! length (filter notna (take 0 sample_noc)) = Str (py ''France'') \<and>
      getcol sample_out ''Country'' = Inr country \<and>
      country ! length (filter notna (take 0 sample_noc)) = Str ile_de_france)"
proof -
  have h2: "getcol (drop_duplicates table_sample) ''Born'' = Inr sample_born"
    by (simp add: model_defs table_sample_def sample_born_def)
  have h3: "getcol (drop_duplicates table_sample) ''NOC'' = Inr sample_noc"
    by (simp add: model_defs table_sample_def sample_noc_def)
  have h4: "length sample_noc = length sample_born"
    by (simp add: sample_noc_def sample_born_def)
  have h5: "0 < length sample_born" by (simp add: sample_born_def)
  have h6: "sample_born ! 0 = Str born_paris" by (simp add: sample_born_def)
  have h7: "sample_noc ! 0 \<noteq> NaN" by (simp add: sample_noc_def)
  show ?thesis
    by (intro conjI)
       (rule clean_table_sample h2 h3 h4 h5 h6 h7
          C3_round_trip [OF clean_table_sample h2 h3 h4 h5 h6 h7])+
qed

section \<open>Height and weight\<close>

text \<open>
  What the Measurements stage of the notebook leaves at a row \<open>i\<close> of a rectangular frame,
  when it runs through. The text of the row is cut at its slashes and the parts are
  stripped. With one part: a part that holds \<^verbatim>\<open>cm\<close> goes to the height with \<^verbatim>\<open> cm\<close> taken
  out, and there is no weight; otherwise a part that holds \<^verbatim>\<open>kg\<close> goes to the weight with
  \<^verbatim>\<open> kg\<close> taken out, and there is no height; otherwise both are missing. With two parts
  or more, the first goes to the height with \<^verbatim>\<open> cm\<close> taken out and the second to the
  weight with \<^verbatim>\<open> kg\<close> taken out. What is stored is then read as a number, and what is not
  the text of a number becomes the missing value.
\<close>

lemma measurements_stage_rows:
  assumes "measurements_stage df = Inr df'" and "getcol df ''Measurements'' = Inr meas"
    and "nrows df = length meas" and "i < length meas"
  shows "\<exists>h w. getcol df' ''height_cm'' = Inr h \<and> getcol df' ''weight_kg'' = Inr w \<and>
           (meas ! i = NaN \<longrightarrow> h ! i = NaN \<and> w ! i = NaN) \<and>
           (\<forall>s. meas ! i = Str s \<longrightarrow>
              (let ps = map str_strip (str_split (py ''/'') s) in
                 (length ps = 1 \<longrightarrow>
                    (if str_contains (py ''cm'') (ps ! 0)
                     then h ! i = numeric_cell (str_replace (py '' cm'') [] (ps ! 0)) \<and> w ! i = NaN
                     else if str_contains (py ''kg'') (ps ! 0)
                     then h ! i = NaN \<and> w ! i = numeric_cell (str_replace (py '' kg'') [] (ps ! 0))
                     else h ! i = NaN \<and> w ! i = NaN)) \<and>
                 (1 < length ps \<longrightarrow>
                    h ! i = numeric_cell (str_replace (py '' cm'') [] (ps ! 0)) \<and>
                    w ! i = numeric_cell (str_replace (py '' kg'') [] (ps ! 1)))))"
proof -
  define X where "X = str_split_expand (py ''/'') meas"
  define nd where "nd = map (str_map str_strip) X"
  define none where "none = replicate (nrows df) NaN"
  from measurements_stage_Inr [OF assms(1)] assms(2) obtain hw where
    lp: "iterrows_loop nd [0..<length meas] (none, none) = Inr hw" and
    g: "\<And>m. getcol df' m =
          (if m = ''Measurements'' then Inl (KeyError m)
           else if m = ''weight_kg'' then Inr (to_numeric (snd hw))
           else if m = ''height_cm'' then Inr (to_numeric (fst hw))
           else getcol df m)"
    by (auto simp: nd_def X_def none_def)
  have pre: "\<forall>k\<in>set [0..<length meas]. k < length (fst (none, none)) \<and> k < length (snd (none, none)) \<and>
      fst (none, none) ! k = NaN \<and> snd (none, none) ! k = NaN"
    using assms(3) by (simp add: none_def)
  from iterrows_loop_stored [OF lp _ pre] assms(3,4) have
    lh: "length (fst hw) = length meas" and lw: "length (snd hw) = length meas" and
    lr: "1 < length (row_at nd i)" and
    hi: "fst hw ! i = fst (stored (row_at nd i ! 0) (row_at nd i ! 1))" and
    wi: "snd hw ! i = snd (stored (row_at nd i ! 0) (row_at nd i ! 1))"
    by (simp_all add: none_def)
  from lr have l1: "1 < length X" by (simp add: row_at_def nd_def)
  then have l0: "0 < length X" by linarith
  have r0: "row_at nd i ! 0 =
      (case meas ! i of Str s \<Rightarrow> Str (str_strip (str_split (py ''/'') s ! 0)) | _ \<Rightarrow> NaN)"
    using stripped_parts [OF l0 [unfolded X_def] assms(4)] length_str_split [of "py ''/''"]
    by (simp add: nd_def X_def split: cell.splits)
  have r1: "row_at nd i ! Suc 0 =
      (case meas ! i of
         Str s \<Rightarrow> if Suc 0 < length (str_split (py ''/'') s)
                  then Str (str_strip (str_split (py ''/'') s ! Suc 0)) else NaN
       | _ \<Rightarrow> NaN)"
    using stripped_parts [OF l1 [unfolded X_def] assms(4)]
    by (simp add: nd_def X_def split: cell.splits)
  define h where "h = to_numeric (fst hw)"
  define w where "w = to_numeric (snd hw)"
  have hv: "h ! i = (case fst hw ! i of Str s \<Rightarrow> numeric_cell s | Num q \<Rightarrow> Num q | _ \<Rightarrow> NaN)"
    and wv: "w ! i = (case snd hw ! i of Str s \<Rightarrow> numeric_cell s | Num q \<Rightarrow> Num q | _ \<Rightarrow> NaN)"
    using lh lw assms(4) by (simp_all add: h_def w_def nth_to_numeric)
  have missing: "h ! i = NaN \<and> w ! i = NaN" if "meas ! i = NaN"
    using that by (simp add: hv wv hi wi r0 r1 stored_def)
  have parts: "(let ps = map str_strip (str_split (py ''/'') s) in
                 (length ps = 1 \<longrightarrow>
                    (if str_contains (py ''cm'') (ps ! 0)
                     then h ! i = numeric_cell (str_replace (py '' cm'') [] (ps ! 0)) \<and> w ! i = NaN
                     else if str_contains (py ''kg'') (ps ! 0)
                     then h ! i = NaN \<and> w ! i = numeric_cell (str_replace (py '' kg'') [] (ps ! 0))
                     else h ! i = NaN \<and> w ! i = NaN)) \<and>
                 (1 < length ps \<longrightarrow>
                    h ! i = numeric_cell (str_replace (py '' cm'') [] (ps ! 0)) \<and>
                    w ! i = numeric_cell (str_replace (py '' kg'') [] (ps ! 1))))"
    if s: "meas ! i = Str s" for s
  proof -
    have p0: "map str_strip (str_split (py ''/'') s) ! 0 = str_strip (str_split (py ''/'') s ! 0)"
      using length_str_split [of "py ''/''" s] by simp
    have p1: "map str_strip (str_split (py ''/'') s) ! Suc 0 = str_strip (str_split (py ''/'') s ! Suc 0)"
      if "Suc 0 < length (str_split (py ''/'') s)"
      using that by simp
    show ?thesis
      using p1 by (auto simp: Let_def p0 hv wv hi wi r0 r1 s stored_def)
  qed
  have "getcol df' ''height_cm'' = Inr h" "getcol df' ''weight_kg'' = Inr w"
    using g [of "''height_cm''"] g [of "''weight_kg''"] by (simp_all add: h_def w_def)
  with missing parts show ?thesis by blast
qed

text \<open>
  C4. The specification has a single part that holds the marker \<^verbatim>\<open>cm\<close> give its number as
  the height, a single part that holds \<^verbatim>\<open>kg\<close> its number as the weight, and of two parts
  the first always give the height and the second the weight, whatever units they name.
  The notebook does so for \<^verbatim>\<open>178 cm\<close>, \<^verbatim>\<open>75 kg\<close> and \<^verbatim>\<open>178 cm / 75 kg\<close>. It does not for
  \<^verbatim>\<open>75 kg / 178 cm\<close>, where both numbers are lost, and for \<^verbatim>\<open>178cm\<close>, which holds the marker
  and gives no height: the loop takes \<^verbatim>\<open> cm\<close> (with its space) out of what it stores as the
  height and \<^verbatim>\<open> kg\<close> out of what it stores as the weight, and nothing else; the statement
  that takes both units out of every part,
  \<^verbatim>\<open>new_data4 = new_data4.replace({"cm": "", "kg": ""}, regex=True)\<close>, comes after the loop
  and its result is never read. In the whole run the lost values are then imputed: the
  second and third athlete of the table below come out with the height 180 and the
  weight 80 of the first.
\<close>

theorem C4_units_lose_numbers:
  "measurements_stage frame_meas = Inr meas_out \<and>
   clean table_units = Inr (frame_of_rows final_columns
     [ [Num 1, Str (py ''Jean Dupont''), Str (py ''Male''), Date 1980 1 12, Str (py ''Paris''),
       Str (py ''France''), Str ile_de_france, Str (py ''France''), Num 180, Num 80,
       roles_text, unknown],
      [Num 2, Str (py ''Ann Lee''), Str (py ''Male''), Date 1980 1 12, Str (py ''Paris''),
       Str (py ''France''), Str ile_de_france, Str (py ''France''), Num 180, Num 80,
       roles_text, unknown],
      [Num 3, Str (py ''Lia Rossi''), Str (py ''Male''), Date 1980 1 12, Str (py ''Paris''),
       Str (py ''France''), Str ile_de_france, Str (py ''France''), Num 180, Num 80,
       roles_text, unknown] ])"
  by (simp add: model_defs frame_meas_def meas_out_def measurements_sample_def table_units_def)

section \<open>Imputation of the numeric columns\<close>

text \<open>
  C5. The specification gives every missing cell of a numeric column the most frequent
  value of that column, and among equally frequent values the first met from the top.
  The imputer of the notebook takes the smallest of the equally frequent values instead:
  with one 180 above one 170, the missing cell becomes 170.
\<close>

theorem C5_tie_counterexample:
  "fit_transform [Num 180, Num 170, NaN] = Inr [Num 180, Num 170, Num 170] \<and>
   fit_transform [Num 180, Num 170, NaN] \<noteq> Inr [Num 180, Num 170, Num 180]"
  by (simp add: model_defs)

text \<open>
  C5, as amended: one pass of the imputer loop over the column \<open>n\<close> changes that column
  only; every missing cell of it gets one value \<open>v\<close> of the column, no value of the column
  is more frequent than \<open>v\<close>, and \<open>v\<close> is the smallest of the values as frequent as itself.
\<close>

theorem C5_most_frequent_smallest:
  assumes "impute_col n df = Inr df'"
  shows "\<exists>c v. getcol df n = Inr c \<and> v \<in> set (observed c) \<and>
           (\<forall>x\<in>set (observed c). count_list (observed c) x \<le> count_list (observed c) v \<and>
              (count_list (observed c) x = count_list (observed c) v \<longrightarrow> v \<le> x)) \<and>
           getcol df' n = Inr (map (\<lambda>x. if x = NaN then Num v else x) c) \<and>
           (\<forall>m. m \<noteq> n \<longrightarrow> getcol df' m = getcol df m)"
proof -
  from impute_col_Inr [OF assms] obtain c c' where
    c: "getcol df n = Inr c" and ft: "fit_transform c = Inr c'" and df': "df' = setcol df n c'"
    by blast
  from fit_transform_Inr [OF ft] obtain v where
    v: "most_frequent (observed c) = Some v" and c': "c' = map (\<lambda>x. if x = NaN then Num v else x) c"
    by blast
  from most_frequent_Some [OF v] c c' df' show ?thesis
    by (intro exI [of _ c] exI [of _ v]) (simp add: getcol_setcol)
qed

theorem C5_most_frequent_smallest_witness:
  "impute_col ''height_cm'' column_with_tie = Inr [(''height_cm'', [Num 180, Num 170, Num 170])] \<and>
   (\<exists>c v. getcol column_with_tie ''height_cm'' = Inr c \<and> v \<in> set (observed c) \<and>
      (\<forall>x\<in>set (observed c). count_list (observed c) x \<le> count_list (observed c) v \<and>
         (count_list (observed c) x = count_list (observed c) v \<longrightarrow> v \<le> x)) \<and>
      getcol [(''height_cm'', [Num 180, Num 170, Num 170])] ''height_cm'' =
        Inr (map (\<lambda>x. if x = NaN then Num v else x) c) \<and>
      (\<forall>m. m \<noteq> ''height_cm'' \<longrightarrow>
         getcol [(''height_cm'', [Num 180, Num 170, Num 170])] m = getcol column_with_tie m))"
proof -
  have h: "impute_col ''height_cm'' column_with_tie = Inr [(''height_cm'', [Num 180, Num 170, Num 170])]"
    by (simp add: model_defs column_with_tie_def)
  from C5_most_frequent_smallest [OF h] h show ?thesis by blast
qed

section \<open>Duplicates\<close>

text \<open>
  C6. Deduplication removes exactly the rows that equal an earlier row in every column: the
  rows that stay are the first occurrences, in their order; the columns stay; and a second
  deduplication changes nothing. The frame is rectangular, as every DataFrame is.
\<close>

theorem C6_drop_duplicates:
  assumes "rectangular df"
  shows "rows (drop_duplicates df) = nths (rows df) {i. \<forall>j<i. rows df ! j \<noteq> rows df ! i} \<and>
         map fst (drop_duplicates df) = map fst df \<and>
         drop_duplicates (drop_duplicates df) = drop_duplicates df"
proof -
  have "map fst (drop_duplicates df) = map fst df"
    by (simp add: drop_duplicates_def filter_rows_def comp_def)
  moreover have "drop_duplicates (drop_duplicates df) = drop_duplicates df"
    by (rule drop_duplicates_distinct
        [OF rectangular_drop_duplicates [OF assms] distinct_rows_drop_duplicates [OF assms]])
  ultimately show ?thesis using rows_drop_duplicates [OF assms] by simp
qed

theorem C6_drop_duplicates_witness:
  "rectangular table_dup \<and>
   drop_duplicates table_dup =
     [(''athlete_id'', [Num 1, Num 2, Num 1]),
      (''Sex'', [Str (py ''Male''), Str (py ''Female''), Str (py ''Female'')])] \<and>
   rows (drop_duplicates table_dup) =
     nths (rows table_dup) {i. \<forall>j<i. rows table_dup ! j \<noteq> rows table_dup ! i} \<and>
   map fst (drop_duplicates table_dup) = map fst table_dup \<and>
   drop_duplicates (drop_duplicates table_dup) = drop_duplicates table_dup"
proof -
  have r: "rectangular table_dup"
    by (simp add: rectangular_def table_dup_def nrows_def)
  have d: "drop_duplicates table_dup =
     [(''athlete_id'', [Num 1, Num 2, Num 1]),
      (''Sex'', [Str (py ''Male''), Str (py ''Female''), Str (py ''Female'')])]"
    by (simp add: model_defs table_dup_def)
  from C6_drop_duplicates [OF r] r d show ?thesis by simp
qed

section \<open>Rows without a committee\<close>

text \<open>
  C7. After a run of the notebook on a rectangular table, the \<^verbatim>\<open>NOC\<close> column of the output
  is the \<^verbatim>\<open>NOC\<close> column of the deduplicated table without its missing cells, in the same
  order; the output has as many rows as the deduplicated table, less the rows with a
  missing \<^verbatim>\<open>NOC\<close>; and the columns that no stage rewrites (\<^verbatim>\<open>Sex\<close>, \<^verbatim>\<open>Roles\<close>) hold
  exactly the cells of the rows whose \<^verbatim>\<open>NOC\<close> is there, so no other row is removed.
\<close>

theorem C7_null_noc_rows_dropped:
  assumes "clean df = Inr out" and "rectangular df"
  shows "\<exists>noc. getcol (drop_duplicates df) ''NOC'' = Inr noc \<and>
           getcol out ''NOC'' = Inr (filter notna noc) \<and>
           nrows out = nrows (drop_duplicates df) - length (filter isna noc) \<and>
           (\<forall>m\<in>{''Sex'', ''Roles''}.
              getcol out m = map_sum id (filter_mask (map notna noc)) (getcol (drop_duplicates df) m))"
proof -
  from clean_passive [OF assms(1), of "''NOC''"] obtain noc where
    noc: "getcol (drop_duplicates df) ''NOC'' = Inr noc" and
    out: "getcol out ''NOC'' = Inr (filter notna noc)"
    by (auto simp: filter_mask_self)
  have other: "getcol out m = map_sum id (filter_mask (map notna noc)) (getcol (drop_duplicates df) m)"
    if "m \<in> {''Sex'', ''Roles''}" for m
    using clean_passive [OF assms(1), of m] that noc by auto
  from clean_athlete_id [OF assms(1)] noc obtain ids c where
    ids: "getcol (drop_duplicates df) ''athlete_id'' = Inr ids" and
    ft: "fit_transform (filter_mask (map notna noc) ids) = Inr c" and
    oc: "getcol out ''athlete_id'' = Inr c"
    by auto
  have rd: "rectangular (drop_duplicates df)" by (rule rectangular_drop_duplicates [OF assms(2)])
  have ln: "length noc = nrows (drop_duplicates df)" and li: "length ids = nrows (drop_duplicates df)"
    using getcol_length [OF rd noc] getcol_length [OF rd ids] by simp_all
  have names: "map fst out = final_columns"
  proof -
    from clean_steps [OF assms(1)] obtain d7 d8 where
      "project_stage d7 = Inr d8" "fill_stage d8 = Inr out" by blast
    then show ?thesis using project_stage_Inr fill_stage_names by metis
  qed
  have "nrows out = length c"
    using names oc by (intro getcol_first) (simp_all add: final_columns_def)
  also have "\<dots> = length (filter id (map notna noc))"
    using length_fit_transform [OF ft] ln li by (simp add: length_filter_mask)
  also have "\<dots> = length (filter notna noc)"
    by (simp add: filter_map comp_def)
  also have "\<dots> = length noc - length (filter isna noc)"
  proof -
    have "length (filter notna noc) + length (filter isna noc) = length noc"
      using sum_length_filter_compl [of notna noc] by (simp add: notna_def isna_def [abs_def] comp_def)
    then show ?thesis by simp
  qed
  finally have "nrows out = nrows (drop_duplicates df) - length (filter isna noc)"
    using ln by simp
  with noc out other show ?thesis by blast
qed

theorem C7_null_noc_rows_dropped_witness:
  "clean table_sample = Inr sample_out \<and> rectangular table_sample \<and>
   (\<exists>noc. getcol (drop_duplicates table_sample) ''NOC'' = Inr noc \<and>
      getcol sample_out ''NOC'' = Inr (filter notna noc) \<and>
      nrows sample_out = nrows (drop_duplicates table_sample) - length (filter isna noc) \<and>
      (\<forall>m\<in>{''Sex'', ''Roles''}.
         getcol sample_out m =
           map_sum id (filter_mask (map notna noc)) (getcol (drop_duplicates table_sample) m)))"
  by (intro conjI)
     (rule clean_table_sample rectangular_table_sample
        C7_null_noc_rows_dropped [OF clean_table_sample rectangular_table_sample])+

section \<open>Defaults and final columns\<close>

text \<open>
  C8. After a run of the notebook the columns of the output are, in this order,
  \<^verbatim>\<open>athlete_id, name, Sex, birth_date, City, Region, Country, NOC, height_cm, weight_kg,
  Roles, Affiliations\<close>. With \<open>pre\<close> the frame before the last stage: each of \<^verbatim>\<open>City\<close>,
  \<^verbatim>\<open>Region\<close>, \<^verbatim>\<open>Country\<close>, \<^verbatim>\<open>Affiliations\<close> is its column of \<open>pre\<close> with \<^verbatim>\<open>Unknown\<close> in
  the place of every missing cell, \<^verbatim>\<open>birth_date\<close> is its column of \<open>pre\<close> with 1975-01-01
  in the place of every missing cell, and none of the five columns has a missing cell.
\<close>

theorem C8_defaults_and_columns:
  assumes "clean df = Inr out"
  shows "map fst out = final_columns \<and>
         (\<exists>pre. apply_each [prune_stage, name_stage, born_stage, city_stage, region_stage, noc_stage,
                   measurements_stage, project_stage] (drop_duplicates df) = Inr pre \<and>
            (\<forall>m\<in>{''City'', ''Region'', ''Country'', ''Affiliations''}.
               \<exists>c. getcol pre m = Inr c \<and>
                   getcol out m = Inr (map (\<lambda>x. if x = NaN then Str (py ''Unknown'') else x) c)) \<and>
            (\<exists>c. getcol pre ''birth_date'' = Inr c \<and>
                 getcol out ''birth_date'' = Inr (map (\<lambda>x. if x = NaN then Date 1975 1 1 else x) c))) \<and>
         (\<forall>m\<in>{''City'', ''Region'', ''Country'', ''Affiliations'', ''birth_date''}.
            \<exists>c. getcol out m = Inr c \<and> NaN \<notin> set c)"
proof -
  from clean_steps [OF assms(1)] obtain d1 d2 d3 d4 d5 d6 d7 d8 where s:
    "prune_stage (drop_duplicates df) = Inr d1" "name_stage d1 = Inr d2"
    "born_stage d2 = Inr d3" "city_stage d3 = Inr d4" "region_stage d4 = Inr d5"
    "noc_stage d5 = Inr d6" "measurements_stage d6 = Inr d7"
    "project_stage d7 = Inr d8" "fill_stage d8 = Inr out"
    by blast
  have pre: "apply_each [prune_stage, name_stage, born_stage, city_stage, region_stage, noc_stage,
                   measurements_stage, project_stage] (drop_duplicates df) = Inr d8"
    using s(1-8) by simp
  have names: "map fst out = final_columns"
    using project_stage_Inr [OF s(8)] fill_stage_names [OF s(9)] by simp
  have strs: "\<exists>c. getcol d8 m = Inr c \<and>
      getcol out m = Inr (map (\<lambda>x. if x = NaN then Str (py ''Unknown'') else x) c)"
    if "m \<in> {''City'', ''Region'', ''Country'', ''Affiliations''}" for m
    using fill_stage_text [OF s(9) that] by (simp add: fillna_def isna_def unknown_def)
  have date: "\<exists>c. getcol d8 ''birth_date'' = Inr c \<and>
      getcol out ''birth_date'' = Inr (map (\<lambda>x. if x = NaN then Date 1975 1 1 else x) c)"
    using fill_stage_birth_date [OF s(9)] by (simp add: fillna_def isna_def sentinel_def)
  have nonull: "\<exists>c. getcol out m = Inr c \<and> NaN \<notin> set c"
    if "m \<in> {''City'', ''Region'', ''Country'', ''Affiliations'', ''birth_date''}" for m
  proof (cases "m = ''birth_date''")
    case True
    with date show ?thesis by auto
  next
    case False
    with that have "m \<in> {''City'', ''Region'', ''Country'', ''Affiliations''}" by auto
    from strs [OF this] show ?thesis by auto
  qed
  from names pre strs date nonull show ?thesis by blast
qed

theorem C8_defaults_and_columns_witness:
  "clean table_sample = Inr sample_out \<and>
   map fst sample_out = final_columns \<and>
   (\<exists>pre. apply_each [prune_stage, name_stage, born_stage, city_stage, region_stage, noc_stage,
             measurements_stage, project_stage] (drop_duplicates table_sample) = Inr pre \<and>
      (\<forall>m\<in>{''City'', ''Region'', ''Country'', ''Affiliations''}.
         \<exists>c. getcol pre m = Inr c \<and>
             getcol sample_out m = Inr (map (\<lambda>x. if x = NaN then Str (py ''Unknown'') else x) c)) \<and>
      (\<exists>c. getcol pre ''birth_date'' = Inr c \<and>
           getcol sample_out ''birth_date'' =
             Inr (map (\<lambda>x. if x = NaN then Date 1975 1 1 else x) c))) \<and>
   (\<exists>c. getcol sample_out ''City'' = Inr c \<and> NaN \<notin> set c) \<and>
   (\<exists>c. getcol sample_out ''Region'' = Inr c \<and> NaN \<notin> set c) \<and>
   (\<exists>c. getcol sample_out ''Country'' = Inr c \<and> NaN \<notin> set c) \<and>
   (\<exists>c. getcol sample_out ''Affiliations'' = Inr c \<and> NaN \<notin> set c) \<and>
   (\<exists>c. getcol sample_out ''birth_date'' = Inr c \<and> NaN \<notin> set c)"
proof -
  note c8 = C8_defaults_and_columns [OF clean_table_sample]
  from c8 have names: "map fst sample_out = final_columns"
    by (rule conjunct1)
  from c8 have pre: "\<exists>pre. apply_each [prune_stage, name_stage, born_stage, city_stage, region_stage,
             noc_stage, measurements_stage, project_stage] (drop_duplicates table_sample) = Inr pre \<and>
      (\<forall>m\<in>{''City'', ''Region'', ''Country'', ''Affiliations''}.
         \<exists>c. getcol pre m = Inr c \<and>
             getcol sample_out m = Inr (map (\<lambda>x. if x = NaN then Str (py ''Unknown'') else x) c)) \<and>
      (\<exists>c. getcol pre ''birth_date'' = Inr c \<and>
           getcol sample_out ''birth_date'' =
             Inr (map (\<lambda>x. if x = NaN then Date 1975 1 1 else x) c))"
    by (rule conjunct1 [OF conjunct2])
  from c8 have all: "\<forall>m\<in>{''City'', ''Region'', ''Country'', ''Affiliations'', ''birth_date''}.
      \<exists>c. getcol sample_out m = Inr c \<and> NaN \<notin> set c"
    by (rule conjunct2 [OF conjunct2])
  have each: "\<exists>c. getcol sample_out ''City'' = Inr c \<and> NaN \<notin> set c"
    "\<exists>c. getcol sample_out ''Region'' = Inr c \<and> NaN \<notin> set c"
    "\<exists>c. getcol sample_out ''Country'' = Inr c \<and> NaN \<notin> set c"
    "\<exists>c. getcol sample_out ''Affiliations'' = Inr c \<and> NaN \<notin> set c"
    "\<exists>c. getcol sample_out ''birth_date'' = Inr c \<and> NaN \<notin> set c"
    using all by (simp_all only: ball_simps bex_simps simp_thms)
  show ?thesis
    by (intro conjI) (rule clean_table_sample names pre each)+
qed

section \<open>Spaces in place names\<close>

text \<open>
  C9. In a run of the notebook the Born stage leaves as \<^verbatim>\<open>birth_location\<close> the stripped
  second part of the birth text with every space (code point 32) taken out, not only
  the spaces around it; and in the output no string of the \<^verbatim>\<open>City\<close>, \<^verbatim>\<open>Region\<close> and
  \<^verbatim>\<open>Country\<close> columns holds a space. In the sample table \<^verbatim>\<open>New York, New York (USA)\<close>
  ends as the city \<^verbatim>\<open>NewYork\<close> in the region \<^verbatim>\<open>NewYork\<close>.
\<close>

theorem C9_no_space_in_places:
  assumes "clean df = Inr out"
  shows "(\<exists>d2 d3 born.
            apply_each [prune_stage, name_stage] (drop_duplicates df) = Inr d2 \<and>
            born_stage d2 = Inr d3 \<and> getcol d2 ''Born'' = Inr born \<and>
            getcol d3 ''birth_location'' =
              Inr (map (\<lambda>c. case c of Str s \<Rightarrow> Str (filter (\<lambda>ch. ch \<noteq> 32) s) | _ \<Rightarrow> NaN)
                     (strip_column (str_split_expand (py ''in'') born ! 1)))) \<and>
         (\<forall>m\<in>{''City'', ''Region'', ''Country''}.
            \<exists>c. getcol out m = Inr c \<and> (\<forall>s. Str s \<in> set c \<longrightarrow> 32 \<notin> set s))"
proof -
  from clean_steps [OF assms(1)] obtain d1 d2 d3 d4 d5 d6 d7 d8 where s:
    "prune_stage (drop_duplicates df) = Inr d1" "name_stage d1 = Inr d2"
    "born_stage d2 = Inr d3" "city_stage d3 = Inr d4" "region_stage d4 = Inr d5"
    "noc_stage d5 = Inr d6" "measurements_stage d6 = Inr d7"
    "project_stage d7 = Inr d8" "fill_stage d8 = Inr out"
    by blast
  from born_stage_Inr [OF s(3)] obtain loc where
    loc: "getcol d3 ''birth_location'' = Inr loc" "spaceless loc"
    by (auto simp: spaceless_remove_spaces)
  from city_stage_Inr [OF s(4)] loc obtain
    l4: "1 < length (str_split_expand (py '','') loc)" and
    g4: "\<And>m. getcol d4 m =
              (if m = ''Region_country'' then Inr (str_split_expand (py '','') loc ! 1)
               else if m = ''City'' then Inr (str_split_expand (py '','') loc ! 0)
               else getcol d3 m)"
    by auto
  define city where "city = str_split_expand (py '','') loc ! 0"
  define rc where "rc = str_split_expand (py '','') loc ! 1"
  have city: "getcol d4 ''City'' = Inr city" "spaceless city"
    using g4 [of "''City''"] l4 loc(2) by (auto simp: city_def intro!: spaceless_str_split_expand)
  have rc: "getcol d4 ''Region_country'' = Inr rc" "spaceless rc"
    using g4 [of "''Region_country''"] l4 loc(2) by (auto simp: rc_def intro!: spaceless_str_split_expand)
  from region_stage_Inr [OF s(5)] rc obtain
    l5: "1 < length (str_split_expand (py ''('') rc)" and
    g5: "\<And>m. getcol d5 m =
              (if m \<in> {''Born'', ''birth_location'', ''Region_country'', ''Died''} then Inl (KeyError m)
               else if m = ''Country''
               then Inr (str_map (str_replace (py '')'') []) (str_split_expand (py ''('') rc ! 1))
               else if m = ''Region'' then Inr (str_split_expand (py ''('') rc ! 0)
               else getcol d4 m)"
    by auto
  have five: "\<exists>c. getcol d5 m = Inr c \<and> spaceless c" if "m \<in> {''City'', ''Region'', ''Country''}" for m
  proof -
    from that consider "m = ''City''" | "m = ''Region''" | "m = ''Country''" by auto
    then show ?thesis
    proof cases
      case 1 with g5 [of m] city show ?thesis by simp
    next
      case 2 with g5 [of m] l5 rc(2) show ?thesis
        by (auto intro!: spaceless_str_split_expand)
    next
      case 3 with g5 [of m] l5 rc(2) show ?thesis
        by (auto intro!: spaceless_str_replace_del spaceless_str_split_expand)
    qed
  qed
  have first: "\<exists>d2 d3 born.
            apply_each [prune_stage, name_stage] (drop_duplicates df) = Inr d2 \<and>
            born_stage d2 = Inr d3 \<and> getcol d2 ''Born'' = Inr born \<and>
            getcol d3 ''birth_location'' =
              Inr (map (\<lambda>c. case c of Str s \<Rightarrow> Str (filter (\<lambda>ch. ch \<noteq> 32) s) | _ \<Rightarrow> NaN)
                     (strip_column (str_split_expand (py ''in'') born ! 1)))"
  proof -
    have a: "apply_each [prune_stage, name_stage] (drop_duplicates df) = Inr d2"
      using s(1,2) by simp
    from born_stage_Inr [OF s(3)] obtain born where
      b: "getcol d2 ''Born'' = Inr born" and
      l: "getcol d3 ''birth_location'' =
            Inr (remove_spaces (strip_column (str_split_expand (py ''in'') born ! 1)))"
      by auto
    have "remove_spaces c =
        map (\<lambda>c. case c of Str s \<Rightarrow> Str (filter (\<lambda>ch. ch \<noteq> 32) s) | _ \<Rightarrow> NaN) c" for c
      by (simp add: remove_spaces_def str_map_def py_space str_replace_char_del split: cell.splits)
    with a b l s(3) show ?thesis by auto
  qed
  have "\<forall>m\<in>{''City'', ''Region'', ''Country''}.
      \<exists>c. getcol out m = Inr c \<and> (\<forall>s. Str s \<in> set c \<longrightarrow> 32 \<notin> set s)"
  proof
    fix m assume m: "m \<in> {''City'', ''Region'', ''Country''}"
    from five [OF m] obtain c where c: "getcol d5 m = Inr c" "spaceless c" by blast
    from noc_stage_Inr [OF s(6)] obtain noc where d6: "d6 = filter_rows (map notna noc) d5" by blast
    have "getcol d6 m = Inr (filter_mask (map notna noc) c)"
      using c(1) by (simp add: d6 getcol_filter_rows)
    moreover have "getcol d7 m = getcol d6 m"
      using measurements_stage_Inr [OF s(7)] m by auto
    moreover have "getcol d8 m = getcol d7 m"
      using project_stage_Inr [OF s(8)] m by (auto simp: final_columns_def)
    ultimately have "getcol d8 m = Inr (filter_mask (map notna noc) c)" by simp
    moreover from m have "m \<in> {''City'', ''Region'', ''Country'', ''Affiliations''}" by auto
    from fill_stage_text [OF s(9) this] obtain c8 where
      "getcol d8 m = Inr c8" "getcol out m = Inr (fillna unknown c8)" by blast
    ultimately have "getcol out m = Inr (fillna unknown (filter_mask (map notna noc) c))" by simp
    moreover have "spaceless (fillna unknown (filter_mask (map notna noc) c))"
      using c(2) by (intro spaceless_fillna_unknown spaceless_filter_mask)
    ultimately show "\<exists>c. getcol out m = Inr c \<and> (\<forall>s. Str s \<in> set c \<longrightarrow> 32 \<notin> set s)"
      by (auto simp: spaceless_def)
  qed
  with first show ?thesis by (rule conjI)
qed

theorem C9_no_space_in_places_witness:
  "clean table_sample = Inr sample_out \<and>
   getcol sample_out ''City'' = Inr [Str (py ''Paris''), Str (py ''NewYork''), unknown] \<and>
   (\<exists>d2 d3 born.
      apply_each [prune_stage, name_stage] (drop_duplicates table_sample) = Inr d2 \<and>
      born_stage d2 = Inr d3 \<and> getcol d2 ''Born'' = Inr born \<and>
      getcol d3 ''birth_location'' =
        Inr (map (\<lambda>c. case c of Str s \<Rightarrow> Str (filter (\<lambda>ch. ch \<noteq> 32) s) | _ \<Rightarrow> NaN)
               (strip_column (str_split_expand (py ''in'') born ! 1)))) \<and>
   (\<exists>c. getcol sample_out ''City'' = Inr c \<and> (\<forall>s. Str s \<in> set c \<longrightarrow> 32 \<notin> set s)) \<and>
   (\<exists>c. getcol sample_out ''Region'' = Inr c \<and> (\<forall>s. Str s \<in> set c \<longrightarrow> 32 \<notin> set s)) \<and>
   (\<exists>c. getcol sample_out ''Country'' = Inr c \<and> (\<forall>s. Str s \<in> set c \<longrightarrow> 32 \<notin> set s))"
proof -
  have city: "getcol sample_out ''City'' = Inr [Str (py ''Paris''), Str (py ''NewYork''), unknown]"
    by (simp add: sample_out_def frame_of_rows_def final_columns_def getcol_def upt_rec)
  note c9 = C9_no_space_in_places [OF clean_table_sample]
  from c9 have loc: "\<exists>d2 d3 born.
      apply_each [prune_stage, name_stage] (drop_duplicates table_sample) = Inr d2 \<and>
      born_stage d2 = Inr d3 \<and> getcol d2 ''Born'' = Inr born \<and>
      getcol d3 ''birth_location'' =
        Inr (map (\<lambda>c. case c of Str s \<Rightarrow> Str (filter (\<lambda>ch. ch \<noteq> 32) s) | _ \<Rightarrow> NaN)
               (strip_column (str_split_expand (py ''in'') born ! 1)))"
    by (rule conjunct1)
  from c9 have all: "\<forall>m\<in>{''City'', ''Region'', ''Country''}.
      \<exists>c. getcol sample_out m = Inr c \<and> (\<forall>s. Str s \<in> set c \<longrightarrow> 32 \<notin> set s)"
    by (rule conjunct2)
  have each: "\<exists>c. getcol sample_out ''City'' = Inr c \<and> (\<forall>s. Str s \<in> set c \<longrightarrow> 32 \<notin> set s)"
    "\<exists>c. getcol sample_out ''Region'' = Inr c \<and> (\<forall>s. Str s \<in> set c \<longrightarrow> 32 \<notin> set s)"
    "\<exists>c. getcol sample_out ''Country'' = Inr c \<and> (\<forall>s. Str s \<in> set c \<longrightarrow> 32 \<notin> set s)"
    using all by (simp_all only: ball_simps bex_simps simp_thms)
  show ?thesis
    by (intro conjI) (rule clean_table_sample city loc each)+
qed

section \<open>The name column\<close>




end
